theory Spec2Isabelle
  imports Complex_Main "HOL-Library.Sublist" "HOL-Library.AList"
begin

section \<open>The FRA accident data pull: fetch, filter, export\<close>

text \<open>
  The program is the notebook \<^verbatim>\<open>notebooks/fra_data_pull.ipynb\<close>: one cell that pages
  through a JSON endpoint, one that drops the track-related cause codes and projects
  to a fixed column list, one that keeps the last ten years, and one that writes a
  CSV file. Each cell is embedded as a function; the library calls it makes
  (\<^verbatim>\<open>requests.get\<close>, the pandas \<^verbatim>\<open>DataFrame\<close> operations, \<^verbatim>\<open>datetime.today\<close>) are
  embedded by their documented behaviour on the values the notebook hands them. What
  lies outside the notebook is a parameter: the server, the cause-code table, the clock,
  how a string reads as a date and how a timestamp prints.
\<close>

subsection \<open>Values\<close>

text \<open>
  A JSON scalar as Python holds it, together with the three values pandas adds:
  \<open>NaN\<close> (the fill value of a missing cell), and \<open>Timestamp\<close> and \<open>NaT\<close> (the
  elements of a \<^verbatim>\<open>datetime64[ns]\<close> column; a timestamp counts nanoseconds on the
  naive time line). JSON numbers are carried as integers: no operation of the
  notebook computes with them.
\<close>

datatype scalar = Str string | Num int | PyNone | NaN | Timestamp int | NaT

text \<open>A JSON object (a Python \<^verbatim>\<open>dict\<close>) is the list of its items, in key order.\<close>

type_synonym jrecord = "(string \<times> scalar) list"

datatype exn =
    ConnectionError
  | JSONDecodeError
  | KeyError "string list"
  | ParserError
  | TypeError

subsection \<open>Cell 3: the paginated fetch\<close>

text \<open>
  \<^verbatim>\<open>requests.get(query_url)\<close> either raises (no response: \<open>None\<close>) or returns a
  response with a status code; \<^verbatim>\<open>response.json()\<close> either raises (\<open>json = None\<close>)
  or returns the decoded array of objects. The server is a parameter \<open>get\<close> with a
  state of its own; it sees the two query parameters \<^verbatim>\<open>$limit\<close> and \<^verbatim>\<open>$offset\<close>.
\<close>

record response =
  status_code :: nat
  json :: "jrecord list option"

text \<open>
  The variables of the loop. \<open>stdout\<close> holds the status codes of the
  \<^verbatim>\<open>Failed to retrieve data\<close> messages printed; \<open>calls\<close> is a ghost variable that
  logs every GET issued (its \<^verbatim>\<open>$offset\<close> and the response).
\<close>

record fetch_vars =
  offset :: nat
  all_data :: "jrecord list"
  stdout :: "nat list"
  calls :: "(nat \<times> response) list"

partial_function (option) fetch_loop ::
  "('s \<Rightarrow> nat \<Rightarrow> nat \<Rightarrow> response option \<times> 's) \<Rightarrow> nat \<Rightarrow> 's \<Rightarrow> fetch_vars
     \<Rightarrow> ((exn + fetch_vars) \<times> 's) option"
where
  "fetch_loop get limit s v =
     (case get s limit (offset v) of
        (None, s') \<Rightarrow> Some (Inl ConnectionError, s')
      | (Some r, s') \<Rightarrow>
          (let v1 = v\<lparr>calls := calls v @ [(offset v, r)]\<rparr> in
           if status_code r = 200 then
             (case json r of
                None \<Rightarrow> Some (Inl JSONDecodeError, s')
              | Some data \<Rightarrow>
                  if data = [] then Some (Inr v1, s')
                  else fetch_loop get limit s'
                         (v1\<lparr>all_data := all_data v1 @ data, offset := offset v1 + limit\<rparr>))
           else Some (Inr (v1\<lparr>stdout := stdout v1 @ [status_code r]\<rparr>), s')))"

definition fetch_init :: fetch_vars where
  "fetch_init = \<lparr>offset = 0, all_data = [], stdout = [], calls = []\<rparr>"

definition fetch_cell ::
  "('s \<Rightarrow> nat \<Rightarrow> nat \<Rightarrow> response option \<times> 's) \<Rightarrow> nat \<Rightarrow> 's
     \<Rightarrow> ((exn + fetch_vars) \<times> 's) option" where
  "fetch_cell get limit s = fetch_loop get limit s fetch_init"

text \<open>The page a successful response carries (nothing when the body does not decode).\<close>

definition page :: "response \<Rightarrow> jrecord list" where
  "page r = (case json r of None \<Rightarrow> [] | Some d \<Rightarrow> d)"

definition ok :: "jrecord list \<Rightarrow> response" where
  "ok d = \<lparr>status_code = 200, json = Some d\<rparr>"

text \<open>
  The two test sources of the specification. \<open>mock_source ds\<close> holds the records
  \<open>ds\<close> and serves them in offset order, always with status 200. \<open>scripted\<close> replays
  a fixed sequence of responses, one per call, whatever is asked; when the sequence is
  used up the call fails.
\<close>

definition mock_source :: "jrecord list \<Rightarrow> unit \<Rightarrow> nat \<Rightarrow> nat \<Rightarrow> response option \<times> unit" where
  "mock_source ds s limit off = (Some (ok (take limit (drop off ds))), s)"

fun scripted :: "response list \<Rightarrow> nat \<Rightarrow> nat \<Rightarrow> response option \<times> response list" where
  "scripted [] limit off = (None, [])"
| "scripted (r # rs) limit off = (Some r, rs)"

text \<open>
  Whether the loop gets to issue call \<open>n + 1\<close>, and in which state: \<open>reaches get limit s v n\<close>
  is the server state and the variables after \<open>n\<close> calls that were each answered with status
  200 and a page that is not empty, and \<open>None\<close> when one of them was answered otherwise, or
  not at all (the loop has ended by then).
\<close>

fun reaches ::
  "('s \<Rightarrow> nat \<Rightarrow> nat \<Rightarrow> response option \<times> 's) \<Rightarrow> nat \<Rightarrow> 's \<Rightarrow> fetch_vars \<Rightarrow> nat
     \<Rightarrow> ('s \<times> fetch_vars) option" where
  "reaches get limit s v 0 = Some (s, v)"
| "reaches get limit s v (Suc n) =
     (case get s limit (offset v) of
        (None, s') \<Rightarrow> None
      | (Some r, s') \<Rightarrow>
          (let v1 = v\<lparr>calls := calls v @ [(offset v, r)]\<rparr> in
           if status_code r = 200 then
             (case json r of
                None \<Rightarrow> None
              | Some data \<Rightarrow>
                  if data = [] then None
                  else reaches get limit s'
                         (v1\<lparr>all_data := all_data v1 @ data, offset := offset v1 + limit\<rparr>) n)
           else None))"

text \<open>
  What a run of the loop that returns has done, from the variables \<open>v\<close> it started
  with to the variables \<open>v'\<close> it ends with: it issued the calls \<open>tr\<close> and then \<open>r\<close>, at
  offsets that go up by \<open>limit\<close>; every call of \<open>tr\<close> was a success with a page that is
  not empty, and these pages were appended in order; the last call \<open>r\<close> was either a
  success with an empty page, or a failure whose status was printed.
\<close>

definition fetched :: "nat \<Rightarrow> fetch_vars \<Rightarrow> fetch_vars \<Rightarrow> bool" where
  "fetched limit v v' \<longleftrightarrow>
     (\<exists>tr r. calls v' = calls v @ tr @ [r]
        \<and> (\<forall>q\<in>set tr. status_code (snd q) = 200 \<and> json (snd q) \<noteq> None \<and> page (snd q) \<noteq> [])
        \<and> map fst (tr @ [r]) = map (\<lambda>k. offset v + k * limit) [0..<Suc (length tr)]
        \<and> all_data v' = all_data v @ concat (map (page \<circ> snd) tr)
        \<and> offset v' = offset v + length tr * limit
        \<and> (if status_code (snd r) = 200 then json (snd r) = Some [] \<and> stdout v' = stdout v
            else stdout v' = stdout v @ [status_code (snd r)]))"

subsection \<open>Data frames\<close>

text \<open>
  A frame has its column labels, in order, and its rows; a row keeps the index label
  it was given when the frame was built (its position in \<^verbatim>\<open>all_data\<close>) and its cells
  by column label.
\<close>

record frame =
  columns :: "string list"
  rows :: "(nat \<times> jrecord) list"

definition cell_of :: "jrecord \<Rightarrow> string \<Rightarrow> scalar" where
  "cell_of r c = (case map_of r c of None \<Rightarrow> NaN | Some v \<Rightarrow> v)"

text \<open>
  \<^verbatim>\<open>pd.DataFrame(all_data)\<close> on a list of dicts: the columns are the keys of all the
  records in order of first appearance, and a record without a key gets \<open>NaN\<close> there.
\<close>

definition add_key :: "string list \<Rightarrow> string \<Rightarrow> string list" where
  "add_key acc k = (if k \<in> set acc then acc else acc @ [k])"

definition union_keys :: "jrecord list \<Rightarrow> string list" where
  "union_keys recs = foldl add_key [] (concat (map (map fst) recs))"

definition reindex :: "string list \<Rightarrow> jrecord \<Rightarrow> jrecord" where
  "reindex cs r = map (\<lambda>c. (c, cell_of r c)) cs"

definition DataFrame :: "jrecord list \<Rightarrow> frame" where
  "DataFrame recs =
     \<lparr>columns = union_keys recs,
      rows = enumerate 0 (map (reindex (union_keys recs)) recs)\<rparr>"

text \<open>\<^verbatim>\<open>df[c]\<close>: the column, or \<^verbatim>\<open>KeyError\<close> when the frame has no such label.\<close>

definition getitem_col :: "frame \<Rightarrow> string \<Rightarrow> exn + scalar list" where
  "getitem_col df c =
     (if c \<in> set (columns df) then Inr (map (\<lambda>(i, r). cell_of r c) (rows df))
      else Inl (KeyError [c]))"

text \<open>\<^verbatim>\<open>df[cs]\<close> with a list of labels: \<^verbatim>\<open>KeyError\<close> naming the labels not found.\<close>

definition getitem_cols :: "frame \<Rightarrow> string list \<Rightarrow> exn + frame" where
  "getitem_cols df cs =
     (case filter (\<lambda>c. c \<notin> set (columns df)) cs of
        [] \<Rightarrow> Inr \<lparr>columns = cs, rows = map (\<lambda>(i, r). (i, reindex cs r)) (rows df)\<rparr>
      | missing \<Rightarrow> Inl (KeyError missing))"

text \<open>\<^verbatim>\<open>df[mask]\<close> with a boolean column: the rows whose mask entry is true.\<close>

definition getitem_mask :: "frame \<Rightarrow> bool list \<Rightarrow> frame" where
  "getitem_mask df bs = df\<lparr>rows := map fst (filter snd (zip (rows df) bs))\<rparr>"

text \<open>\<^verbatim>\<open>df[c] = vals\<close>: overwrites the column, or appends it when it is new.\<close>

definition setitem_col :: "frame \<Rightarrow> string \<Rightarrow> scalar list \<Rightarrow> frame" where
  "setitem_col df c vals =
     \<lparr>columns = (if c \<in> set (columns df) then columns df else columns df @ [c]),
      rows = map (\<lambda>((i, r), v). (i, AList.update c v r)) (zip (rows df) vals)\<rparr>"

subsection \<open>Cell 4: exclusion and projection\<close>

text \<open>
  \<^verbatim>\<open>Series.isin(codes_list)\<close> on one cell. The codes are the keys of the cause-code
  table, which are strings: only a string cell can be one of them.
\<close>

fun isin :: "string list \<Rightarrow> scalar \<Rightarrow> bool" where
  "isin codes (Str s) = (s \<in> set codes)"
| "isin codes v = False"

definition features_to_analyze :: "string list" where
  "features_to_analyze =
     [''reportingrailroadcode'', ''accidentnumber'', ''date'', ''time'', ''accidenttype'',
      ''hazmatreleasedcars'', ''station'', ''stateabbr'', ''temperature'',
      ''visibility_code'', ''visibility'', ''weathercondition'', ''tracktype'',
      ''equipmenttype'', ''trainspeed'', ''equipmentdamagecost'', ''trackdamagecost'',
      ''totaldamagecost'', ''primaryaccidentcausecode'', ''latitude'', ''longitude'']"

text \<open>
  The table \<^verbatim>\<open>primary_accident_cause_codes\<close> is imported from a module outside the
  notebook; it is the parameter \<open>lookup\<close>, a dict of code and label.
\<close>

definition exclusion :: "(string \<times> string) list \<Rightarrow> frame \<Rightarrow> exn + frame" where
  "exclusion lookup df =
     (let codes_list = map fst lookup in
      case getitem_col df ''primaryaccidentcausecode'' of
        Inl e \<Rightarrow> Inl e
      | Inr col \<Rightarrow> Inr (getitem_mask df (map (\<lambda>v. \<not> isin codes_list v) col)))"

definition non_track_accidents :: "(string \<times> string) list \<Rightarrow> frame \<Rightarrow> exn + frame" where
  "non_track_accidents lookup df =
     (case exclusion lookup df of
        Inl e \<Rightarrow> Inl e
      | Inr non_track_accidents_df \<Rightarrow> getitem_cols non_track_accidents_df features_to_analyze)"

subsection \<open>Cell 5: the last ten years\<close>

text \<open>
  \<^verbatim>\<open>pd.to_datetime\<close> on a column. pandas settles on one format for the column, that of
  its first string, and reads every string of the column by it. The parameter \<open>parse\<close> is
  that reading: it raises on a string that does not fit (\<open>Unparsable\<close>), gives \<open>NaT\<close> (the
  empty string does) or gives a timestamp, without a time zone. Null cells become \<open>NaT\<close>. A
  number counts nanoseconds, as pandas reads a column of numbers; the embedding reads every
  number so, wherever it stands and however large it is.
\<close>

datatype parsed = Unparsable | ParsedNaT | Parsed int

fun to_datetime1 :: "(string \<Rightarrow> parsed) \<Rightarrow> scalar \<Rightarrow> exn + scalar" where
  "to_datetime1 parse (Str s) =
     (case parse s of
        Unparsable \<Rightarrow> Inl ParserError
      | ParsedNaT \<Rightarrow> Inr NaT
      | Parsed t \<Rightarrow> Inr (Timestamp t))"
| "to_datetime1 parse (Num n) = Inr (Timestamp n)"
| "to_datetime1 parse PyNone = Inr NaT"
| "to_datetime1 parse NaN = Inr NaT"
| "to_datetime1 parse (Timestamp t) = Inr (Timestamp t)"
| "to_datetime1 parse NaT = Inr NaT"

fun to_datetime :: "(string \<Rightarrow> parsed) \<Rightarrow> scalar list \<Rightarrow> exn + scalar list" where
  "to_datetime parse [] = Inr []"
| "to_datetime parse (v # vs) =
     (case to_datetime1 parse v of
        Inl e \<Rightarrow> Inl e
      | Inr d \<Rightarrow> (case to_datetime parse vs of Inl e \<Rightarrow> Inl e | Inr ds \<Rightarrow> Inr (d # ds)))"

text \<open>
  \<^verbatim>\<open>datetime.today()\<close> reads the wall clock: the clock is a state, and each reading
  may differ from the one before. \<^verbatim>\<open>timedelta(days=n)\<close> is \<open>n\<close> days of nanoseconds.
\<close>

record clock =
  now :: "nat \<Rightarrow> int"
  reads :: nat

definition datetime_today :: "clock \<Rightarrow> int \<times> clock" where
  "datetime_today ck = (now ck (reads ck), ck\<lparr>reads := reads ck + 1\<rparr>)"

definition timedelta_days :: "int \<Rightarrow> int" where
  "timedelta_days n = n * 86400000000000"

text \<open>
  \<^verbatim>\<open>column >= ten_years_ago\<close>, cell by cell: \<open>NaT\<close> compares false, and a cell that is
  not a datetime cannot be compared with one.
\<close>

fun ge_datetime1 :: "int \<Rightarrow> scalar \<Rightarrow> exn + bool" where
  "ge_datetime1 c (Timestamp t) = Inr (c \<le> t)"
| "ge_datetime1 c NaT = Inr False"
| "ge_datetime1 c v = Inl TypeError"

fun ge_datetime :: "scalar list \<Rightarrow> int \<Rightarrow> exn + bool list" where
  "ge_datetime [] c = Inr []"
| "ge_datetime (v # vs) c =
     (case ge_datetime1 c v of
        Inl e \<Rightarrow> Inl e
      | Inr b \<Rightarrow> (case ge_datetime vs c of Inl e \<Rightarrow> Inl e | Inr bs \<Rightarrow> Inr (b # bs)))"

text \<open>
  The cell. The two informational lines that print the smallest and largest date
  of the result change nothing and are left out.
\<close>

definition last_10_years ::
  "(string \<Rightarrow> parsed) \<Rightarrow> clock \<Rightarrow> frame \<Rightarrow> (exn + frame) \<times> clock" where
  "last_10_years parse ck df =
     (case getitem_col df ''date'' of
        Inl e \<Rightarrow> (Inl e, ck)
      | Inr col \<Rightarrow>
         (case to_datetime parse col of
            Inl e \<Rightarrow> (Inl e, ck)
          | Inr dates \<Rightarrow>
             (let df1 = setitem_col df ''date'' dates;
                  (today, ck1) = datetime_today ck;
                  ten_years_ago = today - timedelta_days (365 * 10)
              in case getitem_col df1 ''date'' of
                   Inl e \<Rightarrow> (Inl e, ck1)
                 | Inr col1 \<Rightarrow>
                    (case ge_datetime col1 ten_years_ago of
                       Inl e \<Rightarrow> (Inl e, ck1)
                     | Inr bs \<Rightarrow> (Inr (getitem_mask df1 bs), ck1)))))"

subsection \<open>The filter as a whole, and the export\<close>

definition row_filter ::
  "(string \<times> string) list \<Rightarrow> (string \<Rightarrow> parsed) \<Rightarrow> clock \<Rightarrow> jrecord list
     \<Rightarrow> (exn + frame) \<times> clock" where
  "row_filter lookup parse ck recs =
     (case non_track_accidents lookup (DataFrame recs) of
        Inl e \<Rightarrow> (Inl e, ck)
      | Inr df \<Rightarrow> last_10_years parse ck df)"

text \<open>
  \<^verbatim>\<open>to_csv(path, index=False)\<close>. The file is the sequence of rows handed to the CSV
  writer: the header, then one row of rendered cells per row of the frame; with
  \<^verbatim>\<open>index=True\<close> each row would start with the index label, under an empty header.
  Null cells render as the empty string; how a timestamp prints is the parameter
  \<open>strftime\<close>. A number prints as the integer it is carried as (pandas prints the numbers
  of a column it holds as floating point with a decimal point).
\<close>

function show_nat :: "nat \<Rightarrow> string" where
  "show_nat n =
     (if n < 10 then [char_of (48 + n)] else show_nat (n div 10) @ [char_of (48 + n mod 10)])"
  by pat_completeness auto
termination
  by (relation "measure id") auto

definition show_int :: "int \<Rightarrow> string" where
  "show_int i = (if i < 0 then CHR ''-'' # show_nat (nat (- i)) else show_nat (nat i))"

fun render :: "(int \<Rightarrow> string) \<Rightarrow> scalar \<Rightarrow> string" where
  "render strftime (Str s) = s"
| "render strftime (Num n) = show_int n"
| "render strftime (Timestamp t) = strftime t"
| "render strftime v = []"

definition to_csv :: "(int \<Rightarrow> string) \<Rightarrow> bool \<Rightarrow> frame \<Rightarrow> string list list" where
  "to_csv strftime index df =
     ((if index then [[]] else []) @ columns df)
     # map (\<lambda>(i, r). (if index then [show_nat i] else [])
                        @ map (\<lambda>c. render strftime (cell_of r c)) (columns df))
           (rows df)"

text \<open>The file system maps a path to the rows of the file there; writing replaces them.\<close>

definition export ::
  "(int \<Rightarrow> string) \<Rightarrow> (string \<rightharpoonup> string list list) \<Rightarrow> frame \<Rightarrow> (string \<rightharpoonup> string list list)" where
  "export strftime fs df =
     fs(''non_track_accidents_last_10_years.csv'' \<mapsto> to_csv strftime False df)"

subsection \<open>Reading aids\<close>

text \<open>
  The remaining definitions are not part of the notebook; the statements below are written
  with them. \<open>fields\<close> are the keys a record carries. \<open>date_of\<close> is the cell
  \<^verbatim>\<open>pd.to_datetime\<close> makes of the date of a record (where the date reads), \<open>with_date\<close>
  the row with its date replaced by that cell, and \<open>on_or_after c\<close> holds of a timestamp
  at or after \<open>c\<close>, never of \<open>NaT\<close>. \<open>filtered_row\<close> is the row the filter makes of a
  record it keeps, and \<open>kept\<close> says which records those are.
\<close>

definition fields :: "jrecord \<Rightarrow> string set" where
  "fields r = fst ` set r"

definition on_or_after :: "int \<Rightarrow> scalar \<Rightarrow> bool" where
  "on_or_after c v = (case v of Timestamp t \<Rightarrow> c \<le> t | _ \<Rightarrow> False)"

definition date_of :: "(string \<Rightarrow> parsed) \<Rightarrow> jrecord \<Rightarrow> scalar" where
  "date_of parse r = (case to_datetime1 parse (cell_of r ''date'') of Inl e \<Rightarrow> NaT | Inr d \<Rightarrow> d)"

definition with_date :: "(string \<Rightarrow> parsed) \<Rightarrow> jrecord \<Rightarrow> jrecord" where
  "with_date parse r = AList.update ''date'' (date_of parse r) r"

definition filtered_row :: "(string \<Rightarrow> parsed) \<Rightarrow> jrecord \<Rightarrow> jrecord" where
  "filtered_row parse r = with_date parse (reindex features_to_analyze r)"

definition kept :: "string list \<Rightarrow> (string \<Rightarrow> parsed) \<Rightarrow> int \<Rightarrow> jrecord \<Rightarrow> bool" where
  "kept codes parse today r \<longleftrightarrow>
     \<not> isin codes (cell_of r ''primaryaccidentcausecode'')
     \<and> on_or_after (today - timedelta_days 3650) (date_of parse r)"

subsection \<open>Sample data\<close>

text \<open>
  Records as the endpoint returns them: every value a string, a field without a value
  left out. \<open>sample_record\<close> carries all the projected columns and one more;
  \<open>sparse_record\<close> carries three fields, with a null cause code. The sample parser reads
  dates of the one format year-month-day, as midnight of that day. The sample clock reads
  2024-11-13 10:30 first, the midnight clock 2024-11-13 00:00. The three boundary records
  are dated 3649, 3650 and 3651 days before that day.
\<close>

definition sample_record :: "string \<Rightarrow> string \<Rightarrow> scalar \<Rightarrow> jrecord" where
  "sample_record num date code =
     [(''reportingrailroadcode'', Str ''BNSF''), (''accidentnumber'', Str num),
      (''date'', Str date), (''time'', Str ''10:15 AM''), (''county'', Str ''MECKLENBURG''),
      (''accidenttype'', Str ''Derailment''), (''hazmatreleasedcars'', Str ''0''),
      (''station'', Str ''CHARLOTTE''), (''stateabbr'', Str ''NC''), (''temperature'', Str ''54''),
      (''visibility_code'', Str ''2''), (''visibility'', Str ''Day''),
      (''weathercondition'', Str ''Clear''), (''tracktype'', Str ''Main''),
      (''equipmenttype'', Str ''Freight Train''), (''trainspeed'', Str ''25''),
      (''equipmentdamagecost'', Str ''12000''), (''trackdamagecost'', Str ''3000''),
      (''totaldamagecost'', Str ''15000''), (''primaryaccidentcausecode'', code),
      (''latitude'', Str ''35.2271''), (''longitude'', Str ''-80.8431'')]"

definition sparse_record :: "string \<Rightarrow> string \<Rightarrow> jrecord" where
  "sparse_record num date =
     [(''accidentnumber'', Str num), (''date'', Str date), (''primaryaccidentcausecode'', PyNone)]"

definition sample_lookup :: "(string \<times> string) list" where
  "sample_lookup = [(''T001'', ''Roadbed settled or soft'')]"

definition sample_data :: "jrecord list" where
  "sample_data =
     [sample_record ''A1'' ''2024-08-31'' (Str ''H302''),
      sparse_record ''A2'' ''2024-08-31'',
      sample_record ''A3'' ''2024-08-31'' (Str ''T001''),
      sample_record ''A4'' ''2013-05-01'' (Str ''H302'')]"

definition sample_parse :: "string \<Rightarrow> parsed" where
  "sample_parse s =
     (if s = ''2024-08-31'' then Parsed 1725062400000000000
      else if s = ''2014-11-17'' then Parsed 1416182400000000000
      else if s = ''2014-11-16'' then Parsed 1416096000000000000
      else if s = ''2014-11-15'' then Parsed 1416009600000000000
      else if s = ''2013-05-01'' then Parsed 1367366400000000000
      else if s = [] then ParsedNaT
      else Unparsable)"

definition sample_clock :: clock where
  "sample_clock = \<lparr>now = (\<lambda>n. 1731493800000000000 + int n), reads = 0\<rparr>"

definition sample_projected :: frame where
  "sample_projected =
     \<lparr>columns = features_to_analyze,
      rows = [(0, reindex features_to_analyze (sample_record ''A1'' ''2024-08-31'' (Str ''H302''))),
              (1, reindex features_to_analyze (sparse_record ''A2'' ''2024-08-31'')),
              (3, reindex features_to_analyze (sample_record ''A4'' ''2013-05-01'' (Str ''H302'')))]\<rparr>"

definition sample_filtered :: frame where
  "sample_filtered =
     \<lparr>columns = features_to_analyze,
      rows = [(0, filtered_row sample_parse (sample_record ''A1'' ''2024-08-31'' (Str ''H302''))),
              (1, filtered_row sample_parse (sparse_record ''A2'' ''2024-08-31''))]\<rparr>"

definition midnight_clock :: clock where
  "midnight_clock = \<lparr>now = (\<lambda>n. 1731456000000000000 + int n), reads = 0\<rparr>"

definition boundary_data :: "jrecord list" where
  "boundary_data =
     [sample_record ''B1'' ''2014-11-17'' (Str ''H302''),
      sample_record ''B2'' ''2014-11-16'' (Str ''H302''),
      sample_record ''B3'' ''2014-11-15'' (Str ''H302'')]"

definition boundary_projected :: frame where
  "boundary_projected =
     \<lparr>columns = features_to_analyze,
      rows = [(0, reindex features_to_analyze (sample_record ''B1'' ''2014-11-17'' (Str ''H302''))),
              (1, reindex features_to_analyze (sample_record ''B2'' ''2014-11-16'' (Str ''H302''))),
              (2, reindex features_to_analyze (sample_record ''B3'' ''2014-11-15'' (Str ''H302'')))]\<rparr>"

definition boundary_after_midnight :: frame where
  "boundary_after_midnight =
     \<lparr>columns = features_to_analyze,
      rows = [(0, filtered_row sample_parse (sample_record ''B1'' ''2014-11-17'' (Str ''H302'')))]\<rparr>"

definition boundary_at_midnight :: frame where
  "boundary_at_midnight =
     \<lparr>columns = features_to_analyze,
      rows = [(0, filtered_row sample_parse (sample_record ''B1'' ''2014-11-17'' (Str ''H302''))),
              (1, filtered_row sample_parse (sample_record ''B2'' ''2014-11-16'' (Str ''H302'')))]\<rparr>"

section \<open>The fetch loop\<close>

subsection \<open>Counting pages\<close>

text \<open>The number of pages of \<open>N\<close> records at \<open>P\<close> a page, in natural numbers.\<close>

lemma ceil_nat_aux:
  assumes "0 < P"
  shows "(N + P - 1) div P = N div P + (if N mod P = 0 then 0 else (1::nat))"
proof (cases "N mod P = 0")
  case True
  then have "P dvd N" by (simp add: dvd_eq_mod_eq_0)
  then obtain q where q: "N = P * q" by (auto simp: dvd_def)
  have "(P * q + (P - 1)) div P = q + (P - 1) div P" using assms by (subst div_mult_self4) auto
  moreover have "(P - 1) div P = 0" using assms by simp
  moreover have "N + P - 1 = P * q + (P - 1)" using assms q by simp
  ultimately have "(N + P - 1) div P = q" by simp
  then show ?thesis using True q assms by simp
next
  case False
  then have pos: "0 < N mod P" by simp
  have N: "N = (N div P) * P + N mod P" by simp
  have "N + P - 1 = ((N div P) * P + (N mod P - 1)) + P" using pos N by linarith
  moreover have "(((N div P) * P + (N mod P - 1)) + P) div P = N div P + 1"
  proof -
    have "N mod P - 1 < P" using assms by (meson less_imp_diff_less mod_less_divisor)
    then have "((N div P) * P + (N mod P - 1)) div P = N div P" using assms by simp
    then show ?thesis using assms by (simp only: div_add_self2)
  qed
  ultimately show ?thesis using False by simp
qed

lemma ceil_div:
  assumes "0 < P" shows "nat \<lceil>real N / real P\<rceil> = (N + P - 1) div P"
proof -
  have "\<lceil>real N / real P\<rceil> = - \<lfloor>- (real N / real P)\<rfloor>" by (simp add: ceiling_def)
  also have "- (real N / real P) = real_of_int (- int N) / real_of_int (int P)" by simp
  also have "\<lfloor>real_of_int (- int N) / real_of_int (int P)\<rfloor> = (- int N) div int P"
    by (rule floor_divide_of_int_eq)
  finally have 1: "\<lceil>real N / real P\<rceil> = - ((- int N) div int P)" .
  have 2: "(- int N) div int P =
     (if int N mod int P = 0 then - (int N div int P) else - (int N div int P) - 1)"
    using assms by (intro zdiv_zminus1_eq_if) simp
  have 3: "int N mod int P = int (N mod P)" "int N div int P = int (N div P)"
    by (simp_all add: zmod_int zdiv_int)
  have "- ((- int N) div int P) = int (N div P + (if N mod P = 0 then 0 else 1))"
    unfolding 2 3 by simp
  with 1 show ?thesis using assms by (simp only: ceil_nat_aux nat_int)
qed

lemma ceil_step:
  assumes "0 < P" "o' < n"
  shows "(n - o' + P - 1) div P = (n - (o' + P) + P - 1) div P + (1::nat)"
proof -
  have l: "n - o' + P - 1 = (n - o' - 1) + P" using assms by simp
  have "(n - o' + P - 1) div P = ((n - o' - 1) + P) div P" by (simp only: l)
  also have "\<dots> = (n - o' - 1) div P + 1" using assms by (simp only: div_add_self2)
  finally have 1: "(n - o' + P - 1) div P = (n - o' - 1) div P + 1" .
  have "(n - (o' + P) + P - 1) div P = (n - o' - 1) div P"
  proof (cases "P \<le> n - o'")
    case True
    then have "n - (o' + P) + P - 1 = n - o' - 1" by simp
    then show ?thesis by simp
  next
    case False
    then have "n - (o' + P) + P - 1 = P - 1" by simp
    moreover have "(P - 1) div P = 0" using assms by simp
    moreover have "(n - o' - 1) div P = 0" using False assms by simp
    ultimately show ?thesis by simp
  qed
  with 1 show ?thesis by simp
qed

subsection \<open>The loop against the mock source\<close>

lemma mock_step_empty:
  "length ds \<le> offset v \<Longrightarrow>
   fetch_loop (mock_source ds) P () v = Some (Inr (v\<lparr>calls := calls v @ [(offset v, ok [])]\<rparr>), ())"
  by (subst fetch_loop.simps) (simp add: mock_source_def ok_def)

lemma mock_step_more:
  "offset v < length ds \<Longrightarrow> 0 < P \<Longrightarrow>
   fetch_loop (mock_source ds) P () v =
   fetch_loop (mock_source ds) P ()
     (v\<lparr>calls := calls v @ [(offset v, ok (take P (drop (offset v) ds)))],
        all_data := all_data v @ take P (drop (offset v) ds),
        offset := offset v + P\<rparr>)"
  by (subst fetch_loop.simps) (simp add: mock_source_def ok_def Let_def)

lemma mock_loop:
  assumes "0 < P"
  shows "\<exists>v'. fetch_loop (mock_source ds) P () v = Some (Inr v', ())
      \<and> all_data v' = all_data v @ drop (offset v) ds
      \<and> length (calls v') = length (calls v) + (length ds - offset v + P - 1) div P + 1
      \<and> snd (last (calls v')) = ok []
      \<and> stdout v' = stdout v"
proof (induction "length ds - offset v" arbitrary: v rule: less_induct)
  case less
  show ?case
  proof (cases "offset v < length ds")
    case False
    then show ?thesis using assms by (simp add: mock_step_empty)
  next
    case True
    let ?v1 = "v\<lparr>calls := calls v @ [(offset v, ok (take P (drop (offset v) ds)))],
        all_data := all_data v @ take P (drop (offset v) ds),
        offset := offset v + P\<rparr>"
    have "length ds - offset ?v1 < length ds - offset v" using True assms by simp
    from less[OF this] obtain v' where
      v': "fetch_loop (mock_source ds) P () ?v1 = Some (Inr v', ())"
        "all_data v' = all_data ?v1 @ drop (offset ?v1) ds"
        "length (calls v') = length (calls ?v1) + (length ds - offset ?v1 + P - 1) div P + 1"
        "snd (last (calls v')) = ok []" "stdout v' = stdout ?v1" by blast
    have a: "take P (drop (offset v) ds) @ drop (offset v + P) ds = drop (offset v) ds"
      by (metis add.commute append_take_drop_id drop_drop)
    note b = ceil_step[OF assms True]
    have "fetch_loop (mock_source ds) P () v = Some (Inr v', ())"
      using v'(1) True assms by (simp add: mock_step_more)
    moreover have "all_data v' = all_data v @ drop (offset v) ds" using v'(2) a by simp
    moreover have "length (calls v') = length (calls v) + (length ds - offset v + P - 1) div P + 1"
      using v'(3) b by simp
    ultimately show ?thesis using v'(4,5) by simp
  qed
qed

subsection \<open>What a returning loop has done\<close>

lemma offsets_Cons:
  "map (\<lambda>k. o' + k * limit) [0..<Suc n] = o' # map (\<lambda>k. (o' + limit) + k * limit) [0..<n]"
proof -
  have "[0..<Suc n] = 0 # [Suc 0..<Suc n]" by (rule upt_conv_Cons) simp
  also have "[Suc 0..<Suc n] = map Suc [0..<n]" by (simp only: map_Suc_upt)
  finally have e: "[0..<Suc n] = 0 # map Suc [0..<n]" .
  show ?thesis unfolding e by (simp add: comp_def add.assoc)
qed

lemma fetched_stop:
  "status_code r = 200 \<Longrightarrow> json r = Some [] \<Longrightarrow>
   fetched limit v (v\<lparr>calls := calls v @ [(offset v, r)]\<rparr>)"
  unfolding fetched_def by (rule exI[of _ "[]"], rule exI[of _ "(offset v, r)"]) simp

lemma fetched_fail:
  "status_code r \<noteq> 200 \<Longrightarrow>
   fetched limit v (v\<lparr>calls := calls v @ [(offset v, r)], stdout := stdout v @ [status_code r]\<rparr>)"
  unfolding fetched_def by (rule exI[of _ "[]"], rule exI[of _ "(offset v, r)"]) simp

lemma fetched_more:
  assumes "status_code r = 200" "json r = Some d" "d \<noteq> []"
    and "fetched limit (v\<lparr>calls := calls v @ [(offset v, r)], all_data := all_data v @ d,
                           offset := offset v + limit\<rparr>) v'"
  shows "fetched limit v v'"
proof -
  let ?v1 = "v\<lparr>calls := calls v @ [(offset v, r)], all_data := all_data v @ d,
                           offset := offset v + limit\<rparr>"
  from assms(4) obtain tr r' where t:
    "calls v' = calls ?v1 @ tr @ [r']"
    "\<forall>q\<in>set tr. status_code (snd q) = 200 \<and> json (snd q) \<noteq> None \<and> page (snd q) \<noteq> []"
    "map fst (tr @ [r']) = map (\<lambda>k. offset ?v1 + k * limit) [0..<Suc (length tr)]"
    "all_data v' = all_data ?v1 @ concat (map (page \<circ> snd) tr)"
    "offset v' = offset ?v1 + length tr * limit"
    "if status_code (snd r') = 200 then json (snd r') = Some [] \<and> stdout v' = stdout ?v1
            else stdout v' = stdout ?v1 @ [status_code (snd r')]"
    unfolding fetched_def by blast
  let ?tr = "(offset v, r) # tr"
  have 1: "calls v' = calls v @ ?tr @ [r']" using t(1) by simp
  have 2: "\<forall>q\<in>set ?tr. status_code (snd q) = 200 \<and> json (snd q) \<noteq> None \<and> page (snd q) \<noteq> []"
    using t(2) assms(1-3) by (simp add: page_def)
  have o1: "offset ?v1 = offset v + limit" by simp
  have "map fst (?tr @ [r']) = offset v # map fst (tr @ [r'])" by simp
  also have "map fst (tr @ [r']) = map (\<lambda>k. (offset v + limit) + k * limit) [0..<Suc (length tr)]"
    using t(3) unfolding o1 .
  also have "offset v # map (\<lambda>k. (offset v + limit) + k * limit) [0..<Suc (length tr)]
      = map (\<lambda>k. offset v + k * limit) [0..<Suc (Suc (length tr))]"
    by (rule offsets_Cons[symmetric])
  finally have 3: "map fst (?tr @ [r']) = map (\<lambda>k. offset v + k * limit) [0..<Suc (length ?tr)]"
    by (simp only: length_Cons)
  have 4: "all_data v' = all_data v @ concat (map (page \<circ> snd) ?tr)"
    using t(4) assms(2) by (simp add: page_def)
  have 5: "offset v' = offset v + length ?tr * limit" using t(5) by simp
  have 6: "if status_code (snd r') = 200 then json (snd r') = Some [] \<and> stdout v' = stdout v
            else stdout v' = stdout v @ [status_code (snd r')]" using t(6) by simp
  show ?thesis unfolding fetched_def
    using 1 2 3 4 5 6 by blast
qed

lemma fetch_loop_fetched:
  "fetch_loop get limit s v = Some y \<Longrightarrow> fst y = Inr v' \<Longrightarrow> fetched limit v v'"
proof (induction arbitrary: v' rule: fetch_loop.raw_induct[rotated 1, consumes 1])
  case (1 fetch_loop get limit s v y)
  obtain ro s1 where g: "get s limit (offset v) = (ro, s1)" by (cases "get s limit (offset v)")
  show ?case
  proof (cases ro)
    case None
    with 1(2,3) g show ?thesis by auto
  next
    case (Some r)
    show ?thesis
    proof (cases "status_code r = 200")
      case False
      with 1(2,3) g Some have "v' = v\<lparr>calls := calls v @ [(offset v, r)], stdout := stdout v @ [status_code r]\<rparr>"
        by (auto simp: Let_def)
      then show ?thesis using fetched_fail[OF False] by simp
    next
      case True
      show ?thesis
      proof (cases "json r")
        case None
        with 1(2,3) g Some True show ?thesis by (auto simp: Let_def)
      next
        case (Some d)
        show ?thesis
        proof (cases "d = []")
          case True
          with 1(2,3) g \<open>ro = Some r\<close> \<open>status_code r = 200\<close> Some
          have "v' = v\<lparr>calls := calls v @ [(offset v, r)]\<rparr>" by (auto simp: Let_def)
          then show ?thesis using fetched_stop[of r limit v] \<open>status_code r = 200\<close> Some True by simp
        next
          case False
          with 1(2) g \<open>ro = Some r\<close> \<open>status_code r = 200\<close> Some
          have "fetch_loop get limit s1 (v\<lparr>calls := calls v @ [(offset v, r)], all_data := all_data v @ d,
                           offset := offset v + limit\<rparr>) = Some y" by (simp add: Let_def)
          from 1(1)[OF this 1(3)] show ?thesis
            using fetched_more[OF \<open>status_code r = 200\<close> Some False] by blast
        qed
      qed
    qed
  qed
qed

subsection \<open>The loop against a scripted sequence of responses\<close>

lemma scripted_loop:
  assumes "status_code bad \<noteq> 200"
  shows "(\<forall>r \<in> set pre. status_code r = 200 \<and> json r \<noteq> None \<and> page r \<noteq> []) \<Longrightarrow>
     \<exists>v'. fetch_loop scripted limit (pre @ bad # rest) v = Some (Inr v', rest)
        \<and> all_data v' = all_data v @ concat (map page pre)
        \<and> map snd (calls v') = map snd (calls v) @ pre @ [bad]
        \<and> stdout v' = stdout v @ [status_code bad]"
proof (induction pre arbitrary: v)
  case Nil
  show ?case using assms by (subst fetch_loop.simps) (simp add: Let_def)
next
  case (Cons r pre)
  then obtain d where d: "status_code r = 200" "json r = Some d" "d \<noteq> []"
    by (auto simp: page_def)
  let ?v1 = "v\<lparr>calls := calls v @ [(offset v, r)], all_data := all_data v @ d,
               offset := offset v + limit\<rparr>"
  have step: "fetch_loop scripted limit ((r # pre) @ bad # rest) v
      = fetch_loop scripted limit (pre @ bad # rest) ?v1"
    using d by (subst fetch_loop.simps) (simp add: Let_def)
  from Cons.prems have "\<forall>r \<in> set pre. status_code r = 200 \<and> json r \<noteq> None \<and> page r \<noteq> []"
    by simp
  from Cons.IH[OF this, of ?v1] obtain v' where
    "fetch_loop scripted limit (pre @ bad # rest) ?v1 = Some (Inr v', rest)"
    "all_data v' = all_data ?v1 @ concat (map page pre)"
    "map snd (calls v') = map snd (calls ?v1) @ pre @ [bad]"
    "stdout v' = stdout ?v1 @ [status_code bad]" by blast
  moreover have "page r = d" using d by (simp add: page_def)
  ultimately show ?case using step by simp
qed

subsection \<open>Getting to a call\<close>

lemma reaches_fetch_loop:
  "reaches get limit s v n = Some (sK, vK) \<Longrightarrow>
     fetch_loop get limit s v = fetch_loop get limit sK vK \<and> length (calls vK) = length (calls v) + n"
proof (induction n arbitrary: s v)
  case 0
  then show ?case by simp
next
  case (Suc n)
  obtain ro s1 where g: "get s limit (offset v) = (ro, s1)" by (cases "get s limit (offset v)")
  from Suc.prems g obtain r d where r: "ro = Some r" "status_code r = 200" "json r = Some d" "d \<noteq> []"
    and rec: "reaches get limit s1 (v\<lparr>calls := calls v @ [(offset v, r)],
                 all_data := all_data v @ d, offset := offset v + limit\<rparr>) n = Some (sK, vK)"
    by (auto simp: Let_def split: option.splits if_splits)
  let ?v1 = "v\<lparr>calls := calls v @ [(offset v, r)], all_data := all_data v @ d,
                offset := offset v + limit\<rparr>"
  have "fetch_loop get limit s v = fetch_loop get limit s1 ?v1"
    using g r by (subst fetch_loop.simps) (simp add: Let_def)
  with Suc.IH[OF rec] show ?case by simp
qed

lemma fetch_fails_at:
  assumes "get sK limit (offset vK) = (Some bad, s')" and "status_code bad \<noteq> 200"
  shows "fetch_loop get limit sK vK
     = Some (Inr (vK\<lparr>calls := calls vK @ [(offset vK, bad)],
                      stdout := stdout vK @ [status_code bad]\<rparr>), s')"
  using assms by (subst fetch_loop.simps) (simp add: Let_def)

lemma fetched_last:
  assumes "fetched limit fetch_init w"
  shows "calls w \<noteq> []"
    and "\<forall>q\<in>set (butlast (calls w)). status_code (snd q) = 200 \<and> page (snd q) \<noteq> []"
    and "all_data w = concat (map (page \<circ> snd) (butlast (calls w)))"
    and "status_code (snd (last (calls w))) \<noteq> 200 \<Longrightarrow> stdout w = [status_code (snd (last (calls w)))]"
    and "status_code (snd (last (calls w))) = 200 \<Longrightarrow> json (snd (last (calls w))) = Some [] \<and> stdout w = []"
proof -
  from assms obtain tr r where t: "calls w = calls fetch_init @ tr @ [r]"
    "\<forall>q\<in>set tr. status_code (snd q) = 200 \<and> json (snd q) \<noteq> None \<and> page (snd q) \<noteq> []"
    "all_data w = all_data fetch_init @ concat (map (page \<circ> snd) tr)"
    "if status_code (snd r) = 200 then json (snd r) = Some [] \<and> stdout w = stdout fetch_init
     else stdout w = stdout fetch_init @ [status_code (snd r)]"
    unfolding fetched_def by blast
  have c: "calls w = tr @ [r]" using t(1) by (simp add: fetch_init_def)
  show "calls w \<noteq> []" using c by simp
  show "\<forall>q\<in>set (butlast (calls w)). status_code (snd q) = 200 \<and> page (snd q) \<noteq> []"
    using c t(2) by simp
  show "all_data w = concat (map (page \<circ> snd) (butlast (calls w)))"
    using c t(3) by (simp add: fetch_init_def)
  show "status_code (snd (last (calls w))) \<noteq> 200 \<Longrightarrow> stdout w = [status_code (snd (last (calls w)))]"
    using c t(4) by (simp add: fetch_init_def)
  show "status_code (snd (last (calls w))) = 200 \<Longrightarrow> json (snd (last (calls w))) = Some [] \<and> stdout w = []"
    using c t(4) by (simp add: fetch_init_def)
qed

lemma scripted_aborts:
  assumes "\<forall>r \<in> set pre. status_code r = 200 \<and> json r \<noteq> None \<and> page r \<noteq> []"
    and "status_code bad \<noteq> 200"
  shows "\<exists>v. fetch_cell scripted limit (pre @ bad # rest) = Some (Inr v, rest)
           \<and> all_data v = concat (map page pre)
           \<and> map snd (calls v) = pre @ [bad]
           \<and> length (calls v) = length pre + 1
           \<and> stdout v = [status_code bad]"
proof -
  from scripted_loop[OF assms(2) assms(1), of limit rest fetch_init] obtain v where v:
    "fetch_loop scripted limit (pre @ bad # rest) fetch_init = Some (Inr v, rest)"
    "all_data v = all_data fetch_init @ concat (map page pre)"
    "map snd (calls v) = map snd (calls fetch_init) @ pre @ [bad]"
    "stdout v = stdout fetch_init @ [status_code bad]" by blast
  from v(3) have "length (map snd (calls v)) = length (map snd (calls fetch_init) @ pre @ [bad])"
    by simp
  then have "length (calls v) = length pre + 1" by (simp add: fetch_init_def)
  then show ?thesis using v by (simp add: fetch_cell_def fetch_init_def)
qed

subsection \<open>Number of calls\<close>

text \<open>
  Claim C2. Against a mock source that holds \<open>N\<close> records and serves them in offset order,
  with a page size \<open>P\<close> of at least one, the fetch loop returns; it has issued
  \<open>\<lceil>N / P\<rceil> + 1\<close> GET calls, the last of which returned an empty page, and has
  printed no failure. Against any server at all, a loop that returns after a last response of
  status 200 has received an empty page in it: the empty page is the only way out of the loop on
  the success path.
\<close>

theorem fetch_calls_mock_source:
  assumes "1 \<le> P"
  shows "(\<exists>v. fetch_cell (mock_source ds) P () = Some (Inr v, ())
            \<and> length (calls v) = nat \<lceil>real (length ds) / real P\<rceil> + 1
            \<and> snd (last (calls v)) = ok []
            \<and> stdout v = [])
       \<and> (\<forall>get limit s w s'.
            fetch_cell get limit s = Some (Inr w, s') \<and> status_code (snd (last (calls w))) = 200
            \<longrightarrow> json (snd (last (calls w))) = Some [])"
proof
  from assms have P: "0 < P" by simp
  from mock_loop[OF P, of ds fetch_init] obtain v where
    "fetch_loop (mock_source ds) P () fetch_init = Some (Inr v, ())"
    "length (calls v) = length (calls fetch_init) + (length ds - offset fetch_init + P - 1) div P + 1"
    "snd (last (calls v)) = ok []" "stdout v = stdout fetch_init" by blast
  then show "\<exists>v. fetch_cell (mock_source ds) P () = Some (Inr v, ())
            \<and> length (calls v) = nat \<lceil>real (length ds) / real P\<rceil> + 1
            \<and> snd (last (calls v)) = ok []
            \<and> stdout v = []"
    using ceil_div[OF P, of "length ds"] by (simp add: fetch_cell_def fetch_init_def)
next
  show "\<forall>get limit s w s'.
            fetch_cell get limit s = Some (Inr w, s') \<and> status_code (snd (last (calls w))) = 200
            \<longrightarrow> json (snd (last (calls w))) = Some []"
  proof (intro allI impI, elim conjE)
    fix get :: "'s \<Rightarrow> nat \<Rightarrow> nat \<Rightarrow> response option \<times> 's" and limit s w s'
    assume "fetch_cell get limit s = Some (Inr w, s')" and l: "status_code (snd (last (calls w))) = 200"
    then have "fetched limit fetch_init w"
      using fetch_loop_fetched[of get limit s fetch_init "(Inr w, s')" w] by (simp add: fetch_cell_def)
    then obtain tr r where "calls w = calls fetch_init @ tr @ [r]"
      "if status_code (snd r) = 200 then json (snd r) = Some [] \<and> stdout w = stdout fetch_init
            else stdout w = stdout fetch_init @ [status_code (snd r)]"
      unfolding fetched_def by blast
    with l show "json (snd (last (calls w))) = Some []" by (simp split: if_splits)
  qed
qed

theorem fetch_calls_mock_source_witness:
  "(1::nat) \<le> 2
   \<and> (\<exists>v. fetch_cell (mock_source [[(''accidentnumber'', Str ''A1'')],
                                     [(''accidentnumber'', Str ''A2'')],
                                     [(''accidentnumber'', Str ''A3'')]]) 2 ()
              = Some (Inr v, ())
          \<and> length (calls v) = 3 \<and> snd (last (calls v)) = ok [] \<and> stdout v = [])"
proof -
  have h: "(1::nat) \<le> 2" by simp
  have c: "nat \<lceil>real (length [[(''accidentnumber'', Str ''A1'')],
                                     [(''accidentnumber'', Str ''A2'')],
                                     [(''accidentnumber'', Str ''A3'')]]) / real 2\<rceil> + 1 = 3"
    by simp
  from fetch_calls_mock_source[OF h, of "[[(''accidentnumber'', Str ''A1'')],
                                     [(''accidentnumber'', Str ''A2'')],
                                     [(''accidentnumber'', Str ''A3'')]]"]
  show ?thesis unfolding c using h by blast
qed

subsection \<open>Abort on a failure status\<close>

text \<open>
  Claim C3. When call \<open>K\<close> is the first to be answered with a status other than 200, the loop
  returns at call \<open>K\<close>, as a normal value and not as an exception: it has issued exactly
  \<open>K\<close> calls, has printed the failing status, and \<open>all_data\<close> is the concatenation of the
  pages of calls \<open>1\<close> to \<open>K - 1\<close>. This holds for every server: \<open>reaches\<close> says that the
  loop gets to call \<open>K = n + 1\<close>, and \<open>bad\<close> is the answer to it. It holds in particular
  when the server replays a sequence of responses of which the first \<open>K - 1\<close> (the list
  \<open>pre\<close>) let the loop go on and response \<open>K\<close> (\<open>failing\<close>) is the failure; the responses
  after it are never asked for.
\<close>

theorem fetch_aborts_at_failure:
  "(reaches get limit s fetch_init n = Some (sK, vK)
      \<and> get sK limit (offset vK) = (Some bad, s') \<and> status_code bad \<noteq> 200
    \<longrightarrow> (\<exists>w. fetch_cell get limit s = Some (Inr w, s')
           \<and> length (calls w) = n + 1
           \<and> snd (last (calls w)) = bad
           \<and> (\<forall>q\<in>set (butlast (calls w)). status_code (snd q) = 200 \<and> page (snd q) \<noteq> [])
           \<and> all_data w = concat (map (page \<circ> snd) (butlast (calls w)))
           \<and> stdout w = [status_code bad]))
   \<and> ((\<forall>r \<in> set pre. status_code r = 200 \<and> json r \<noteq> None \<and> page r \<noteq> [])
      \<and> status_code failing \<noteq> 200
    \<longrightarrow> (\<exists>v. fetch_cell scripted page_size (pre @ failing # rest) = Some (Inr v, rest)
           \<and> all_data v = concat (map page pre)
           \<and> map snd (calls v) = pre @ [failing]
           \<and> length (calls v) = length pre + 1
           \<and> stdout v = [status_code failing]))"
proof (intro conjI impI)
  assume a: "reaches get limit s fetch_init n = Some (sK, vK)
      \<and> get sK limit (offset vK) = (Some bad, s') \<and> status_code bad \<noteq> 200"
  let ?w = "vK\<lparr>calls := calls vK @ [(offset vK, bad)], stdout := stdout vK @ [status_code bad]\<rparr>"
  from a reaches_fetch_loop[of get limit s fetch_init n sK vK]
  have l: "fetch_loop get limit s fetch_init = fetch_loop get limit sK vK"
    and n: "length (calls vK) = n" by (simp_all add: fetch_init_def)
  from a fetch_fails_at[of get sK limit vK bad s'] l
  have r: "fetch_cell get limit s = Some (Inr ?w, s')" by (simp add: fetch_cell_def)
  then have "fetched limit fetch_init ?w"
    using fetch_loop_fetched[of get limit s fetch_init "(Inr ?w, s')" ?w] by (simp add: fetch_cell_def)
  note f = fetched_last[OF this]
  have last: "snd (last (calls ?w)) = bad" by simp
  have "stdout ?w = [status_code bad]" using f(4) a unfolding last by blast
  then show "\<exists>w. fetch_cell get limit s = Some (Inr w, s')
           \<and> length (calls w) = n + 1
           \<and> snd (last (calls w)) = bad
           \<and> (\<forall>q\<in>set (butlast (calls w)). status_code (snd q) = 200 \<and> page (snd q) \<noteq> [])
           \<and> all_data w = concat (map (page \<circ> snd) (butlast (calls w)))
           \<and> stdout w = [status_code bad]"
    using r n f(2,3) last by (intro exI[of _ ?w]) simp
next
  assume "(\<forall>r \<in> set pre. status_code r = 200 \<and> json r \<noteq> None \<and> page r \<noteq> [])
      \<and> status_code failing \<noteq> 200"
  then show "\<exists>v. fetch_cell scripted page_size (pre @ failing # rest) = Some (Inr v, rest)
           \<and> all_data v = concat (map page pre)
           \<and> map snd (calls v) = pre @ [failing]
           \<and> length (calls v) = length pre + 1
           \<and> stdout v = [status_code failing]"
    using scripted_aborts[of pre failing page_size rest] by blast
qed

theorem fetch_aborts_at_failure_witness:
  "reaches scripted 1000
     [ok [[(''accidentnumber'', Str ''C1'')]], ok [[(''accidentnumber'', Str ''C2'')]],
      \<lparr>status_code = 503, json = None\<rparr>, ok [[(''accidentnumber'', Str ''C3'')]]]
     fetch_init 2
   = Some ([\<lparr>status_code = 503, json = None\<rparr>, ok [[(''accidentnumber'', Str ''C3'')]]],
           \<lparr>offset = 2000,
              all_data = [[(''accidentnumber'', Str ''C1'')], [(''accidentnumber'', Str ''C2'')]],
              stdout = [],
              calls = [(0, ok [[(''accidentnumber'', Str ''C1'')]]),
                       (1000, ok [[(''accidentnumber'', Str ''C2'')]])]\<rparr>)
   \<and> (\<exists>w. fetch_cell scripted 1000
              [ok [[(''accidentnumber'', Str ''C1'')]], ok [[(''accidentnumber'', Str ''C2'')]],
               \<lparr>status_code = 503, json = None\<rparr>, ok [[(''accidentnumber'', Str ''C3'')]]]
            = Some (Inr w, [ok [[(''accidentnumber'', Str ''C3'')]]])
          \<and> length (calls w) = 2 + 1
          \<and> all_data w = concat (map (page \<circ> snd) (butlast (calls w)))
          \<and> stdout w = [503])
   \<and> (\<exists>v. fetch_cell scripted 1000
              ([ok [[(''accidentnumber'', Str ''C1'')]], ok [[(''accidentnumber'', Str ''C2'')]]]
               @ \<lparr>status_code = 503, json = None\<rparr> # [ok [[(''accidentnumber'', Str ''C3'')]]])
            = Some (Inr v, [ok [[(''accidentnumber'', Str ''C3'')]]])
          \<and> all_data v = [[(''accidentnumber'', Str ''C1'')], [(''accidentnumber'', Str ''C2'')]]
          \<and> stdout v = [503])"
proof -
  let ?script = "[ok [[(''accidentnumber'', Str ''C1'')]], ok [[(''accidentnumber'', Str ''C2'')]],
      \<lparr>status_code = 503, json = None\<rparr>, ok [[(''accidentnumber'', Str ''C3'')]]]"
  let ?vK = "\<lparr>offset = 2000,
              all_data = [[(''accidentnumber'', Str ''C1'')], [(''accidentnumber'', Str ''C2'')]],
              stdout = [],
              calls = [(0, ok [[(''accidentnumber'', Str ''C1'')]]),
                       (1000, ok [[(''accidentnumber'', Str ''C2'')]])]\<rparr>"
  have two: "(2::nat) = Suc (Suc 0)" by simp
  have r: "reaches scripted 1000 ?script fetch_init 2
      = Some ([\<lparr>status_code = 503, json = None\<rparr>, ok [[(''accidentnumber'', Str ''C3'')]]], ?vK)"
    unfolding two by (simp add: fetch_init_def ok_def)
  have g: "scripted [\<lparr>status_code = 503, json = None\<rparr>, ok [[(''accidentnumber'', Str ''C3'')]]]
             1000 (offset ?vK)
      = (Some \<lparr>status_code = 503, json = None\<rparr>, [ok [[(''accidentnumber'', Str ''C3'')]]])"
    by simp
  have b: "status_code \<lparr>status_code = 503, json = None\<rparr> \<noteq> 200" by simp
  have h1: "\<forall>r \<in> set [ok [[(''accidentnumber'', Str ''C1'')]], ok [[(''accidentnumber'', Str ''C2'')]]].
      status_code r = 200 \<and> json r \<noteq> None \<and> page r \<noteq> []"
    by (simp add: ok_def page_def)
  note t = fetch_aborts_at_failure[of scripted 1000 ?script 2
      "[\<lparr>status_code = 503, json = None\<rparr>, ok [[(''accidentnumber'', Str ''C3'')]]]" ?vK
      "\<lparr>status_code = 503, json = None\<rparr>" "[ok [[(''accidentnumber'', Str ''C3'')]]]"
      "[ok [[(''accidentnumber'', Str ''C1'')]], ok [[(''accidentnumber'', Str ''C2'')]]]"
      "\<lparr>status_code = 503, json = None\<rparr>" 1000 "[ok [[(''accidentnumber'', Str ''C3'')]]]"]
  have p1: "reaches scripted 1000 ?script fetch_init 2
      = Some ([\<lparr>status_code = 503, json = None\<rparr>, ok [[(''accidentnumber'', Str ''C3'')]]], ?vK)
    \<and> scripted [\<lparr>status_code = 503, json = None\<rparr>, ok [[(''accidentnumber'', Str ''C3'')]]]
             1000 (offset ?vK)
      = (Some \<lparr>status_code = 503, json = None\<rparr>, [ok [[(''accidentnumber'', Str ''C3'')]]])
    \<and> status_code \<lparr>status_code = 503, json = None\<rparr> \<noteq> 200"
    using r g b by (intro conjI)
  from t[THEN conjunct1, THEN mp, OF p1] obtain w where w:
    "fetch_cell scripted 1000 ?script = Some (Inr w, [ok [[(''accidentnumber'', Str ''C3'')]]])"
    "length (calls w) = 2 + 1"
    "all_data w = concat (map (page \<circ> snd) (butlast (calls w)))"
    "stdout w = [status_code \<lparr>status_code = 503, json = None\<rparr>]" by blast
  have s503: "status_code \<lparr>status_code = 503, json = None\<rparr> = 503" by simp
  from w have 1: "\<exists>w. fetch_cell scripted 1000 ?script
            = Some (Inr w, [ok [[(''accidentnumber'', Str ''C3'')]]])
          \<and> length (calls w) = 2 + 1
          \<and> all_data w = concat (map (page \<circ> snd) (butlast (calls w)))
          \<and> stdout w = [503]" unfolding s503 by blast
  have pg: "concat (map page [ok [[(''accidentnumber'', Str ''C1'')]],
                              ok [[(''accidentnumber'', Str ''C2'')]]])
      = [[(''accidentnumber'', Str ''C1'')], [(''accidentnumber'', Str ''C2'')]]"
    by (simp add: page_def ok_def)
  from t[THEN conjunct2, THEN mp, OF conjI[OF h1 b]] obtain v where v:
    "fetch_cell scripted 1000
              ([ok [[(''accidentnumber'', Str ''C1'')]], ok [[(''accidentnumber'', Str ''C2'')]]]
               @ \<lparr>status_code = 503, json = None\<rparr> # [ok [[(''accidentnumber'', Str ''C3'')]]])
            = Some (Inr v, [ok [[(''accidentnumber'', Str ''C3'')]]])"
    "all_data v = concat (map page [ok [[(''accidentnumber'', Str ''C1'')]],
                              ok [[(''accidentnumber'', Str ''C2'')]]])"
    "stdout v = [status_code \<lparr>status_code = 503, json = None\<rparr>]" by blast
  then have 2: "\<exists>v. fetch_cell scripted 1000
              ([ok [[(''accidentnumber'', Str ''C1'')]], ok [[(''accidentnumber'', Str ''C2'')]]]
               @ \<lparr>status_code = 503, json = None\<rparr> # [ok [[(''accidentnumber'', Str ''C3'')]]])
            = Some (Inr v, [ok [[(''accidentnumber'', Str ''C3'')]]])
          \<and> all_data v = [[(''accidentnumber'', Str ''C1'')], [(''accidentnumber'', Str ''C2'')]]
          \<and> stdout v = [503]" unfolding pg s503 by blast
  from r 1 2 show ?thesis by (intro conjI)
qed

subsection \<open>Pagination loses nothing\<close>

text \<open>
  Claim C4. Against a mock source that holds the records \<open>ds\<close> and does not change, and for
  every page size \<open>P\<close> of at least one, the loop returns with \<open>all_data\<close> equal to \<open>ds\<close>,
  in the same order. \<open>all_data\<close> is the concatenation of the pages received, the calls were
  made at the offsets \<open>0\<close>, \<open>P\<close>, \<open>2P\<close>, ... and one call with no pagination (a limit of the
  whole length at offset 0) returns the same sequence.
\<close>

theorem pagination_lossless:
  assumes "1 \<le> P"
  shows "\<exists>v. fetch_cell (mock_source ds) P () = Some (Inr v, ())
           \<and> all_data v = ds
           \<and> all_data v = concat (map (page \<circ> snd) (calls v))
           \<and> map fst (calls v) = map (\<lambda>k. k * P) [0..<length (calls v)]
           \<and> fst (mock_source ds () (length ds) 0) = Some (ok (all_data v))"
proof -
  from assms have P: "0 < P" by simp
  from mock_loop[OF P, of ds fetch_init] obtain v where v:
    "fetch_loop (mock_source ds) P () fetch_init = Some (Inr v, ())"
    "all_data v = all_data fetch_init @ drop (offset fetch_init) ds"
    "snd (last (calls v)) = ok []" by blast
  from fetch_loop_fetched[OF v(1)] have "fetched P fetch_init v" by simp
  then obtain tr r where t: "calls v = calls fetch_init @ tr @ [r]"
      "map fst (tr @ [r]) = map (\<lambda>k. offset fetch_init + k * P) [0..<Suc (length tr)]"
      "all_data v = all_data fetch_init @ concat (map (page \<circ> snd) tr)"
    unfolding fetched_def by blast
  have r: "page (snd r) = []" using v(3) t(1) by (simp add: page_def ok_def)
  have 1: "all_data v = ds" using v(2) by (simp add: fetch_init_def)
  have 2: "all_data v = concat (map (page \<circ> snd) (calls v))"
    using t(1,3) r by (simp add: fetch_init_def)
  have 3: "map fst (calls v) = map (\<lambda>k. k * P) [0..<length (calls v)]"
    using t(1,2) by (simp add: fetch_init_def)
  have 4: "fst (mock_source ds () (length ds) 0) = Some (ok (all_data v))"
    using 1 by (simp add: mock_source_def)
  show ?thesis using v(1) 1 2 3 4 by (simp add: fetch_cell_def)
qed

theorem pagination_lossless_witness:
  "(1::nat) \<le> 2
   \<and> (\<exists>v. fetch_cell (mock_source [[(''accidentnumber'', Str ''B1'')],
                                     [(''accidentnumber'', Str ''B2'')],
                                     [(''accidentnumber'', Str ''B3'')]]) 2 ()
              = Some (Inr v, ())
          \<and> all_data v = [[(''accidentnumber'', Str ''B1'')],
                          [(''accidentnumber'', Str ''B2'')],
                          [(''accidentnumber'', Str ''B3'')]])"
proof -
  have h: "(1::nat) \<le> 2" by simp
  from pagination_lossless[OF h, of "[[(''accidentnumber'', Str ''B1'')],
                                     [(''accidentnumber'', Str ''B2'')],
                                     [(''accidentnumber'', Str ''B3'')]]"]
  show ?thesis using h by blast
qed

section \<open>The filter\<close>

subsection \<open>Frames and columns\<close>

lemma set_foldl_add_key: "set (foldl add_key acc ks) = set acc \<union> set ks"
  by (induction ks arbitrary: acc) (auto simp: add_key_def)

lemma set_union_keys: "set (union_keys recs) = (\<Union>r\<in>set recs. fields r)"
  by (auto simp: union_keys_def set_foldl_add_key fields_def)

lemma map_of_reindex:
  "map_of (reindex cs r) c = (if c \<in> set cs then Some (cell_of r c) else None)"
  unfolding reindex_def by (induction cs) auto

lemma cell_of_reindex:
  "cell_of (reindex cs r) c = (if c \<in> set cs then cell_of r c else NaN)"
  by (simp add: cell_of_def[of "reindex cs r"] map_of_reindex)

lemma cell_of_missing: "c \<notin> fields r \<Longrightarrow> cell_of r c = NaN"
proof -
  assume "c \<notin> fields r"
  then have "map_of r c = None" by (simp add: fields_def map_of_eq_None_iff)
  then show ?thesis by (simp add: cell_of_def)
qed

lemma cell_of_update:
  "cell_of (AList.update k v r) c = (if c = k then v else cell_of r c)"
  by (simp add: cell_of_def update_conv')

lemma reindex_reindex:
  "set cs \<subseteq> set ds \<Longrightarrow> reindex cs (reindex ds r) = reindex cs r"
  by (auto simp: reindex_def[of cs] cell_of_reindex)

lemma mask_rows:
  "map fst (filter snd (zip rs (map f (map (\<lambda>(i, r). cell_of r c) rs))))
     = filter (\<lambda>(i, r). f (cell_of r c)) rs"
  by (induction rs) auto

lemma getitem_mask_col:
  "getitem_mask df (map f (map (\<lambda>(i, r). cell_of r c) (rows df)))
     = df\<lparr>rows := filter (\<lambda>(i, r). f (cell_of r c)) (rows df)\<rparr>"
  by (simp only: getitem_mask_def mask_rows)

lemma exclusion_eq:
  "exclusion lookup df =
     (if ''primaryaccidentcausecode'' \<in> set (columns df)
      then Inr (df\<lparr>rows := filter (\<lambda>(i, r). \<not> isin (map fst lookup)
                                       (cell_of r ''primaryaccidentcausecode'')) (rows df)\<rparr>)
      else Inl (KeyError [''primaryaccidentcausecode'']))"
proof (cases "''primaryaccidentcausecode'' \<in> set (columns df)")
  case True
  then have "getitem_col df ''primaryaccidentcausecode''
      = Inr (map (\<lambda>(i, r). cell_of r ''primaryaccidentcausecode'') (rows df))"
    by (simp add: getitem_col_def)
  then have "exclusion lookup df
      = Inr (getitem_mask df (map (\<lambda>v. \<not> isin (map fst lookup) v)
               (map (\<lambda>(i, r). cell_of r ''primaryaccidentcausecode'') (rows df))))"
    by (simp add: exclusion_def Let_def del: map_map)
  then show ?thesis using True by (simp only: getitem_mask_col if_True)
next
  case False
  then show ?thesis by (simp add: exclusion_def getitem_col_def)
qed

lemma filter_missing_Nil: "filter (\<lambda>c. c \<notin> S) cs = [] \<longleftrightarrow> set cs \<subseteq> S"
  by (auto simp: filter_empty_conv)

lemma getitem_cols_eq:
  "getitem_cols df cs =
     (if set cs \<subseteq> set (columns df)
      then Inr \<lparr>columns = cs, rows = map (\<lambda>(i, r). (i, reindex cs r)) (rows df)\<rparr>
      else Inl (KeyError (filter (\<lambda>c. c \<notin> set (columns df)) cs)))"
  using filter_missing_Nil[of "set (columns df)" cs]
  by (auto simp: getitem_cols_def split: list.splits)

lemma code_in_features: "''primaryaccidentcausecode'' \<in> set features_to_analyze"
  by (simp add: features_to_analyze_def)

lemma date_in_features: "''date'' \<in> set features_to_analyze"
  by (simp add: features_to_analyze_def)

lemma non_track_accidents_eq:
  "non_track_accidents lookup df =
     (if set features_to_analyze \<subseteq> set (columns df)
      then Inr \<lparr>columns = features_to_analyze,
                rows = map (\<lambda>(i, r). (i, reindex features_to_analyze r))
                         (filter (\<lambda>(i, r). \<not> isin (map fst lookup)
                                       (cell_of r ''primaryaccidentcausecode'')) (rows df))\<rparr>
      else Inl (KeyError (if ''primaryaccidentcausecode'' \<in> set (columns df)
                          then filter (\<lambda>c. c \<notin> set (columns df)) features_to_analyze
                          else [''primaryaccidentcausecode''])))"
  using code_in_features
  by (auto simp: non_track_accidents_def exclusion_eq getitem_cols_eq)

subsection \<open>The date column and the cutoff\<close>

lemma to_datetime1_cases:
  "to_datetime1 parse v = Inr d \<Longrightarrow> d = NaT \<or> (\<exists>t. d = Timestamp t)"
  by (cases v) (auto split: parsed.splits)

lemma to_datetime1_Inl: "to_datetime1 parse v = Inl e \<Longrightarrow> e = ParserError"
  by (cases v) (auto split: parsed.splits)

lemma to_datetime_Inr:
  "to_datetime parse vs = Inr ds \<Longrightarrow>
     ds = map (\<lambda>v. case to_datetime1 parse v of Inl e \<Rightarrow> NaT | Inr d \<Rightarrow> d) vs
     \<and> (\<forall>v\<in>set vs. \<exists>d. to_datetime1 parse v = Inr d)"
  by (induction vs arbitrary: ds) (auto split: sum.splits)

lemma to_datetime_Inl:
  "to_datetime parse vs = Inl e \<Longrightarrow> e = ParserError \<and> (\<exists>v\<in>set vs. to_datetime1 parse v = Inl e)"
  by (induction vs) (auto split: sum.splits dest: to_datetime1_Inl)

lemma ge_datetime_dates:
  "\<forall>d\<in>set ds. d = NaT \<or> (\<exists>t. d = Timestamp t) \<Longrightarrow>
     ge_datetime ds c = Inr (map (on_or_after c) ds)"
  by (induction ds) (auto simp: on_or_after_def)

lemma setitem_rows:
  "map (\<lambda>((i, r), v). (i, AList.update k v r)) (zip rs (map h (map (\<lambda>(i, r). cell_of r c) rs)))
     = map (\<lambda>(i, r). (i, AList.update k (h (cell_of r c)) r)) rs"
  by (induction rs) auto

lemma date_col_with_date:
  "map (\<lambda>(i, r). cell_of r ''date'') (map (\<lambda>(i, r). (i, with_date parse r)) rs)
     = map (\<lambda>(i, r). date_of parse r) rs"
  by (induction rs) (auto simp: with_date_def cell_of_update)

lemma date_of_cases: "date_of parse r = NaT \<or> (\<exists>t. date_of parse r = Timestamp t)"
  using to_datetime1_cases[of parse "cell_of r ''date''"]
  by (auto simp: date_of_def split: sum.splits)

lemma to_datetime_ok:
  "\<forall>v\<in>set vs. \<exists>d. to_datetime1 parse v = Inr d \<Longrightarrow>
     to_datetime parse vs
       = Inr (map (\<lambda>v. case to_datetime1 parse v of Inl e \<Rightarrow> NaT | Inr d \<Rightarrow> d) vs)"
  by (induction vs) auto

lemma last_10_years_ok:
  assumes d: "''date'' \<in> set (columns df)"
    and ok: "\<forall>(i, r)\<in>set (rows df). \<exists>d. to_datetime1 parse (cell_of r ''date'') = Inr d"
  shows "last_10_years parse ck df =
     (Inr \<lparr>columns = columns df,
           rows = filter (\<lambda>(i, r). on_or_after (now ck (reads ck) - timedelta_days 3650)
                                     (cell_of r ''date''))
                    (map (\<lambda>(i, r). (i, with_date parse r)) (rows df))\<rparr>,
      ck\<lparr>reads := reads ck + 1\<rparr>)"
proof -
  let ?col = "map (\<lambda>(i, r). cell_of r ''date'') (rows df)"
  let ?c = "now ck (reads ck) - timedelta_days 3650"
  let ?dates = "map (\<lambda>v. case to_datetime1 parse v of Inl e \<Rightarrow> NaT | Inr d \<Rightarrow> d) ?col"
  have col: "getitem_col df ''date'' = Inr ?col" using d by (simp add: getitem_col_def)
  have "\<forall>v\<in>set ?col. \<exists>d. to_datetime1 parse v = Inr d" using ok by auto
  from to_datetime_ok[OF this] have dates: "to_datetime parse ?col = Inr ?dates" .
  let ?rows1 = "map (\<lambda>(i, r). (i, with_date parse r)) (rows df)"
  let ?df1 = "\<lparr>columns = columns df, rows = ?rows1\<rparr>"
  have df1: "setitem_col df ''date'' ?dates = ?df1"
    unfolding setitem_col_def setitem_rows using d
    by (simp add: with_date_def date_of_def)
  have col1: "getitem_col ?df1 ''date'' = Inr (map (\<lambda>(i, r). cell_of r ''date'') ?rows1)"
    using d by (simp add: getitem_col_def)
  have "\<forall>d\<in>set (map (\<lambda>(i, r). cell_of r ''date'') ?rows1). d = NaT \<or> (\<exists>t. d = Timestamp t)"
    unfolding date_col_with_date using date_of_cases by auto
  from ge_datetime_dates[OF this]
  have ge: "ge_datetime (map (\<lambda>(i, r). cell_of r ''date'') ?rows1) ?c
      = Inr (map (on_or_after ?c) (map (\<lambda>(i, r). cell_of r ''date'') ?rows1))" .
  have m: "getitem_mask ?df1 (map (on_or_after ?c) (map (\<lambda>(i, r). cell_of r ''date'') (rows ?df1)))
      = ?df1\<lparr>rows := filter (\<lambda>(i, r). on_or_after ?c (cell_of r ''date'')) (rows ?df1)\<rparr>"
    by (rule getitem_mask_col)
  have n: "(365::int) * 10 = 3650" by simp
  have "last_10_years parse ck df
      = (Inr (getitem_mask ?df1 (map (on_or_after ?c) (map (\<lambda>(i, r). cell_of r ''date'') ?rows1))),
         ck\<lparr>reads := reads ck + 1\<rparr>)"
    by (simp only: last_10_years_def col sum.case dates df1 datetime_today_def Let_def
          prod.case n col1 ge)
  with m show ?thesis by simp
qed

lemma last_10_years_Inr:
  assumes "last_10_years parse ck df = (Inr out, ck')"
  shows "out = \<lparr>columns = columns df,
               rows = filter (\<lambda>(i, r). on_or_after (now ck (reads ck) - timedelta_days 3650)
                                         (cell_of r ''date''))
                        (map (\<lambda>(i, r). (i, with_date parse r)) (rows df))\<rparr>"
    and "ck' = ck\<lparr>reads := reads ck + 1\<rparr>"
    and "''date'' \<in> set (columns df)"
    and "\<forall>(i, r)\<in>set (rows df). \<exists>d. to_datetime1 parse (cell_of r ''date'') = Inr d"
proof -
  let ?col = "map (\<lambda>(i, r). cell_of r ''date'') (rows df)"
  show d: "''date'' \<in> set (columns df)"
    using assms by (auto simp: last_10_years_def getitem_col_def split: if_splits)
  then have col: "getitem_col df ''date'' = Inr ?col" by (simp add: getitem_col_def)
  obtain dates where dates: "to_datetime parse ?col = Inr dates"
    using assms col by (cases "to_datetime parse ?col") (auto simp: last_10_years_def)
  from to_datetime_Inr[OF dates]
  have "\<forall>v\<in>set ?col. \<exists>d. to_datetime1 parse v = Inr d" by auto
  then show ok: "\<forall>(i, r)\<in>set (rows df). \<exists>d. to_datetime1 parse (cell_of r ''date'') = Inr d"
    by auto
  from last_10_years_ok[OF d ok, of ck] assms
  show "out = \<lparr>columns = columns df,
               rows = filter (\<lambda>(i, r). on_or_after (now ck (reads ck) - timedelta_days 3650)
                                         (cell_of r ''date''))
                        (map (\<lambda>(i, r). (i, with_date parse r)) (rows df))\<rparr>"
    and "ck' = ck\<lparr>reads := reads ck + 1\<rparr>" by simp_all
qed

subsection \<open>The filter, row by row\<close>

lemma enumerate_map:
  "enumerate n (map f xs) = map (\<lambda>(i, x). (i, f x)) (enumerate n xs)"
  by (induction xs arbitrary: n) auto

lemma rows_DataFrame:
  "rows (DataFrame recs) = map (\<lambda>(i, r). (i, reindex (union_keys recs) r)) (enumerate 0 recs)"
  by (simp add: DataFrame_def enumerate_map)

lemma date_of_reindex:
  "''date'' \<in> set cs \<Longrightarrow> date_of parse (reindex cs r) = date_of parse r"
  by (simp add: date_of_def cell_of_reindex)

lemma cell_of_with_date:
  "cell_of (with_date parse r) c = (if c = ''date'' then date_of parse r else cell_of r c)"
  by (simp add: with_date_def cell_of_update)

lemma cell_of_filtered_row:
  "cell_of (filtered_row parse r) c =
     (if c = ''date'' then date_of parse r
      else if c \<in> set features_to_analyze then cell_of r c else NaN)"
  by (simp add: filtered_row_def cell_of_with_date cell_of_reindex date_of_reindex date_in_features)

lemma filter_reindex:
  "c \<in> set cs \<Longrightarrow>
     filter (\<lambda>(i, r). p (cell_of r c)) (map (\<lambda>(i, r). (i, reindex cs r)) xs)
       = map (\<lambda>(i, r). (i, reindex cs r)) (filter (\<lambda>(i, r). p (cell_of r c)) xs)"
  by (induction xs) (auto simp: cell_of_reindex)

lemma non_track_accidents_DataFrame:
  assumes "set features_to_analyze \<subseteq> (\<Union>r\<in>set recs. fields r)"
  shows "non_track_accidents lookup (DataFrame recs) =
     Inr \<lparr>columns = features_to_analyze,
          rows = map (\<lambda>(i, r). (i, reindex features_to_analyze r))
                   (filter (\<lambda>(i, r). \<not> isin (map fst lookup)
                                        (cell_of r ''primaryaccidentcausecode''))
                      (enumerate 0 recs))\<rparr>"
proof -
  have cols: "columns (DataFrame recs) = union_keys recs" by (simp add: DataFrame_def)
  have sub: "set features_to_analyze \<subseteq> set (union_keys recs)"
    using assms by (simp add: set_union_keys)
  then have code: "''primaryaccidentcausecode'' \<in> set (union_keys recs)"
    using code_in_features by blast
  note f = filter_reindex[OF code, of "\<lambda>v. \<not> isin (map fst lookup) v" "enumerate 0 recs"]
  have m: "map (\<lambda>(i, r). (i, reindex features_to_analyze r))
             (map (\<lambda>(i, r). (i, reindex (union_keys recs) r)) xs)
         = map (\<lambda>(i, r). (i, reindex features_to_analyze r)) xs"
    for xs :: "(nat \<times> jrecord) list"
    using sub by (induction xs) (auto simp: reindex_reindex)
  show ?thesis
    unfolding non_track_accidents_eq cols rows_DataFrame f m using sub by simp
qed

lemma non_track_accidents_DataFrame_Inl:
  assumes "\<not> set features_to_analyze \<subseteq> (\<Union>r\<in>set recs. fields r)"
  shows "\<exists>ms. non_track_accidents lookup (DataFrame recs) = Inl (KeyError ms)"
proof -
  have "\<not> set features_to_analyze \<subseteq> set (columns (DataFrame recs))"
    using assms by (simp add: DataFrame_def set_union_keys)
  then show ?thesis unfolding non_track_accidents_eq by simp
qed

lemma filtered_rows:
  "filter (\<lambda>(i, r). on_or_after (today - timedelta_days 3650) (cell_of r ''date''))
          (map (\<lambda>(i, r). (i, with_date parse r))
             (map (\<lambda>(i, r). (i, reindex features_to_analyze r))
                (filter (\<lambda>(i, r). \<not> isin codes (cell_of r ''primaryaccidentcausecode'')) xs)))
      = map (\<lambda>(i, r). (i, filtered_row parse r))
          (filter (\<lambda>(i, r). kept codes parse today r) xs)"
  by (induction xs)
     (auto simp: kept_def filtered_row_def cell_of_with_date date_of_reindex date_in_features)

lemma row_filter_ok:
  assumes sub: "set features_to_analyze \<subseteq> (\<Union>r\<in>set recs. fields r)"
    and ok: "\<forall>r\<in>set recs. \<not> isin (map fst lookup) (cell_of r ''primaryaccidentcausecode'')
               \<longrightarrow> (\<exists>d. to_datetime1 parse (cell_of r ''date'') = Inr d)"
  shows "row_filter lookup parse ck recs =
     (Inr \<lparr>columns = features_to_analyze,
           rows = map (\<lambda>(i, r). (i, filtered_row parse r))
                    (filter (\<lambda>(i, r). kept (map fst lookup) parse (now ck (reads ck)) r)
                       (enumerate 0 recs))\<rparr>,
      ck\<lparr>reads := reads ck + 1\<rparr>)"
proof -
  let ?df = "\<lparr>columns = features_to_analyze,
          rows = map (\<lambda>(i, r). (i, reindex features_to_analyze r))
                   (filter (\<lambda>(i, r). \<not> isin (map fst lookup)
                                        (cell_of r ''primaryaccidentcausecode''))
                      (enumerate 0 recs))\<rparr>"
  have d: "''date'' \<in> set (columns ?df)" using date_in_features by simp
  have p: "\<forall>(i, r)\<in>set (rows ?df). \<exists>d. to_datetime1 parse (cell_of r ''date'') = Inr d"
    using ok by (auto simp: in_set_enumerate_eq cell_of_reindex date_in_features)
  have "last_10_years parse ck ?df =
     (Inr \<lparr>columns = features_to_analyze,
           rows = map (\<lambda>(i, r). (i, filtered_row parse r))
                    (filter (\<lambda>(i, r). kept (map fst lookup) parse (now ck (reads ck)) r)
                       (enumerate 0 recs))\<rparr>,
      ck\<lparr>reads := reads ck + 1\<rparr>)"
    using last_10_years_ok[OF d p, of ck] by (simp add: filtered_rows del: map_map)
  then show ?thesis
    by (simp only: row_filter_def non_track_accidents_DataFrame[OF sub] sum.case)
qed

lemma row_filter_Inr:
  assumes "row_filter lookup parse ck recs = (Inr out, ck')"
  shows "set features_to_analyze \<subseteq> (\<Union>r\<in>set recs. fields r)"
    and "columns out = features_to_analyze"
    and "rows out = map (\<lambda>(i, r). (i, filtered_row parse r))
                     (filter (\<lambda>(i, r). kept (map fst lookup) parse (now ck (reads ck)) r)
                        (enumerate 0 recs))"
    and "ck' = ck\<lparr>reads := reads ck + 1\<rparr>"
proof -
  show sub: "set features_to_analyze \<subseteq> (\<Union>r\<in>set recs. fields r)"
  proof (rule ccontr)
    assume "\<not> ?thesis"
    from non_track_accidents_DataFrame_Inl[OF this, of lookup] assms show False
      by (auto simp: row_filter_def)
  qed
  let ?df = "\<lparr>columns = features_to_analyze,
          rows = map (\<lambda>(i, r). (i, reindex features_to_analyze r))
                   (filter (\<lambda>(i, r). \<not> isin (map fst lookup)
                                        (cell_of r ''primaryaccidentcausecode''))
                      (enumerate 0 recs))\<rparr>"
  have "last_10_years parse ck ?df = (Inr out, ck')"
    using assms non_track_accidents_DataFrame[OF sub, of lookup] by (simp add: row_filter_def)
  note l = last_10_years_Inr[OF this]
  from l(2) show "ck' = ck\<lparr>reads := reads ck + 1\<rparr>" .
  from l(1) show "columns out = features_to_analyze" by simp
  from l(1) show "rows out = map (\<lambda>(i, r). (i, filtered_row parse r))
                     (filter (\<lambda>(i, r). kept (map fst lookup) parse (now ck (reads ck)) r)
                        (enumerate 0 recs))" by (simp add: filtered_rows del: map_map)
qed

lemma rows_out_labels:
  "map fst (map (\<lambda>(i, r). (i, f r)) (filter P (enumerate 0 recs)))
     = map fst (filter P (enumerate 0 recs))"
  by (simp add: case_prod_beta comp_def)

lemma labels_sorted:
  "sorted_wrt (<) (map fst (filter P (enumerate 0 recs)))"
proof -
  have "sorted_wrt (<) (map fst (enumerate 0 recs))" by simp
  then have "sorted_wrt (\<lambda>x y. fst x < fst y) (enumerate 0 recs)"
    by (simp only: sorted_wrt_map)
  then have "sorted_wrt (\<lambda>x y. fst x < fst y) (filter P (enumerate 0 recs))"
    by (rule sorted_wrt_filter)
  then show ?thesis by (simp only: sorted_wrt_map)
qed

lemma labels_subseq:
  "subseq (map fst (filter P (enumerate 0 recs))) [0..<length recs]"
proof -
  have "subseq (map fst (filter P (enumerate 0 recs))) (map fst (enumerate 0 recs))"
    by (rule subseq_map) simp
  then show ?thesis by simp
qed

lemma in_filter_enumerate:
  "(i, r) \<in> set (filter P (enumerate 0 recs)) \<longleftrightarrow> i < length recs \<and> r = recs ! i \<and> P (i, r)"
  by (auto simp: in_set_enumerate_eq)

lemma isin_iff: "isin codes v \<longleftrightarrow> v \<in> Str ` set codes"
  by (cases v) auto

lemma exclusion_cong:
  "set (map fst lookup') = set (map fst lookup) \<Longrightarrow> exclusion lookup' df = exclusion lookup df"
  by (simp add: exclusion_eq isin_iff)

subsection \<open>The filter on the sample data\<close>

lemma fields_sample_record:
  "fields (sample_record num date code) = insert ''county'' (set features_to_analyze)"
  by (auto simp: fields_def sample_record_def features_to_analyze_def)

lemma sample_columns:
  "set features_to_analyze \<subseteq> (\<Union>r\<in>set sample_data. fields r)"
  by (auto simp: sample_data_def fields_sample_record)

lemma sample_projection_eval:
  "non_track_accidents sample_lookup (DataFrame sample_data) = Inr sample_projected"
  unfolding non_track_accidents_DataFrame[OF sample_columns]
  by (simp add: cell_of_def sample_record_def sparse_record_def sample_data_def
        sample_lookup_def sample_projected_def)

lemma sample_filter_eval:
  "row_filter sample_lookup sample_parse sample_clock sample_data
     = (Inr sample_filtered, sample_clock\<lparr>reads := 1\<rparr>)"
proof -
  have c: "cell_of (sample_record num date code) ''primaryaccidentcausecode'' = code"
    "cell_of (sample_record num date code) ''date'' = Str date"
    "cell_of (sparse_record num date) ''primaryaccidentcausecode'' = PyNone"
    "cell_of (sparse_record num date) ''date'' = Str date" for num date code
    by (simp_all add: cell_of_def sample_record_def sparse_record_def)
  have ok: "\<forall>r\<in>set sample_data.
      \<not> isin (map fst sample_lookup) (cell_of r ''primaryaccidentcausecode'')
        \<longrightarrow> (\<exists>d. to_datetime1 sample_parse (cell_of r ''date'') = Inr d)"
    by (simp add: sample_data_def c sample_parse_def)
  show ?thesis
    unfolding row_filter_ok[OF sample_columns ok]
    by (simp add: sample_data_def sample_filtered_def kept_def date_of_def c sample_parse_def
          sample_lookup_def sample_clock_def on_or_after_def timedelta_days_def)
qed

subsection \<open>The filter on the boundary records\<close>

lemma kept_label_iff:
  assumes "last_10_years parse ck df = (Inr out, ck')"
    and "distinct (map fst (rows df))"
    and "(i, r) \<in> set (rows df)"
  shows "i \<in> fst ` set (rows out)
     \<longleftrightarrow> on_or_after (now ck (reads ck) - timedelta_days 3650) (date_of parse r)"
proof
  note rows = last_10_years_Inr(1)[OF assms(1)]
  assume "i \<in> fst ` set (rows out)"
  then obtain r' where "(i, r') \<in> set (rows out)" by auto
  then obtain r0 where r0: "(i, r0) \<in> set (rows df)"
    "on_or_after (now ck (reads ck) - timedelta_days 3650) (cell_of (with_date parse r0) ''date'')"
    by (auto simp: rows)
  from eq_key_imp_eq_value[OF assms(2) r0(1) assms(3)] have "r0 = r" .
  with r0(2) show "on_or_after (now ck (reads ck) - timedelta_days 3650) (date_of parse r)"
    by (simp add: cell_of_with_date)
next
  note rows = last_10_years_Inr(1)[OF assms(1)]
  assume "on_or_after (now ck (reads ck) - timedelta_days 3650) (date_of parse r)"
  then have "on_or_after (now ck (reads ck) - timedelta_days 3650)
      (cell_of (with_date parse r) ''date'')" by (simp add: cell_of_with_date)
  moreover have "(i, with_date parse r) \<in> set (map (\<lambda>(i, r). (i, with_date parse r)) (rows df))"
    using assms(3) by force
  ultimately have "(i, with_date parse r) \<in> set (rows out)" by (simp add: rows)
  then show "i \<in> fst ` set (rows out)" by force
qed

lemma cell_of_sample_record:
  "cell_of (sample_record num date code) ''primaryaccidentcausecode'' = code"
  "cell_of (sample_record num date code) ''date'' = Str date"
  by (simp_all add: cell_of_def sample_record_def)

lemma boundary_columns:
  "set features_to_analyze \<subseteq> (\<Union>r\<in>set boundary_data. fields r)"
  by (auto simp: boundary_data_def fields_sample_record)

lemma boundary_projection_eval:
  "non_track_accidents sample_lookup (DataFrame boundary_data) = Inr boundary_projected"
  unfolding non_track_accidents_DataFrame[OF boundary_columns]
  by (simp add: cell_of_sample_record boundary_data_def sample_lookup_def boundary_projected_def)

lemma boundary_parses:
  "\<forall>r\<in>set boundary_data.
      \<not> isin (map fst sample_lookup) (cell_of r ''primaryaccidentcausecode'')
        \<longrightarrow> (\<exists>d. to_datetime1 sample_parse (cell_of r ''date'') = Inr d)"
  by (simp add: boundary_data_def cell_of_sample_record sample_parse_def)

lemma boundary_filter_eval:
  "row_filter sample_lookup sample_parse sample_clock boundary_data
     = (Inr boundary_after_midnight, sample_clock\<lparr>reads := 1\<rparr>)"
  unfolding row_filter_ok[OF boundary_columns boundary_parses]
  by (simp add: boundary_data_def boundary_after_midnight_def kept_def date_of_def
        cell_of_sample_record sample_parse_def sample_lookup_def sample_clock_def
        on_or_after_def timedelta_days_def)

lemma boundary_filter_eval_midnight:
  "row_filter sample_lookup sample_parse midnight_clock boundary_data
     = (Inr boundary_at_midnight, midnight_clock\<lparr>reads := 1\<rparr>)"
  unfolding row_filter_ok[OF boundary_columns boundary_parses]
  by (simp add: boundary_data_def boundary_at_midnight_def kept_def date_of_def
        cell_of_sample_record sample_parse_def sample_lookup_def midnight_clock_def
        on_or_after_def timedelta_days_def)

lemma boundary_recency_eval:
  "last_10_years sample_parse sample_clock boundary_projected
     = (Inr boundary_after_midnight, sample_clock\<lparr>reads := 1\<rparr>)"
  using boundary_filter_eval by (simp add: row_filter_def boundary_projection_eval)

lemma boundary_recency_eval_midnight:
  "last_10_years sample_parse midnight_clock boundary_projected
     = (Inr boundary_at_midnight, midnight_clock\<lparr>reads := 1\<rparr>)"
  using boundary_filter_eval_midnight by (simp add: row_filter_def boundary_projection_eval)

lemma sample_recency_eval:
  "last_10_years sample_parse sample_clock sample_projected
     = (Inr sample_filtered, sample_clock\<lparr>reads := 1\<rparr>)"
  using sample_filter_eval by (simp add: row_filter_def sample_projection_eval)

lemma boundary_dates:
  "to_datetime1 sample_parse
     (cell_of (reindex features_to_analyze (sample_record num ''2014-11-17'' code)) ''date'')
     = Inr (Timestamp (1731456000000000000 - timedelta_days 3649))"
  "to_datetime1 sample_parse
     (cell_of (reindex features_to_analyze (sample_record num ''2014-11-16'' code)) ''date'')
     = Inr (Timestamp (1731456000000000000 - timedelta_days 3650))"
  "to_datetime1 sample_parse
     (cell_of (reindex features_to_analyze (sample_record num ''2014-11-15'' code)) ''date'')
     = Inr (Timestamp (1731456000000000000 - timedelta_days 3651))"
  by (simp_all add: cell_of_reindex date_in_features cell_of_sample_record sample_parse_def
        timedelta_days_def)

section \<open>Properties of the filter and the export\<close>

subsection \<open>The recency boundary\<close>

text \<open>
  Claim C1, as amended. The run reads the clock at an instant \<open>D\<close>: midnight of the current
  date plus the time of day. A record is kept by the recency filter exactly when its date
  parses to an instant at or after \<open>D\<close> minus 3650 days; the bound is inclusive. So a record
  whose date parses to exactly the instant \<open>D\<close> minus 3650 days is kept, and one that parses
  to \<open>D\<close> minus 3651 days is dropped. The bound is an instant and not a day: a record dated
  at midnight of the day 3650 days before the current date is kept when the run happens at
  midnight and dropped at any later time of day; a record dated a day later is kept, a record
  dated a day earlier is dropped. A record is named by its index label, and the labels of the
  frame are distinct, as they are in every frame built from the fetched records.
\<close>

theorem recency_boundary:
  assumes "last_10_years parse ck df = (Inr out, ck')"
    and "now ck (reads ck) = midnight + time_of_day"
    and "0 \<le> time_of_day"
    and "time_of_day < timedelta_days 1"
    and "distinct (map fst (rows df))"
    and "(i, r) \<in> set (rows df)"
    and "to_datetime1 parse (cell_of r ''date'') = Inr (Timestamp t)"
  shows "(i \<in> fst ` set (rows out) \<longleftrightarrow> midnight + time_of_day - timedelta_days 3650 \<le> t)
       \<and> (t = midnight + time_of_day - timedelta_days 3650 \<longrightarrow> i \<in> fst ` set (rows out))
       \<and> (t = midnight + time_of_day - timedelta_days 3651 \<longrightarrow> i \<notin> fst ` set (rows out))
       \<and> (t = midnight - timedelta_days 3649 \<longrightarrow> i \<in> fst ` set (rows out))
       \<and> (t = midnight - timedelta_days 3650
            \<longrightarrow> (i \<in> fst ` set (rows out) \<longleftrightarrow> time_of_day = 0))
       \<and> (t = midnight - timedelta_days 3651 \<longrightarrow> i \<notin> fst ` set (rows out))"
proof -
  from assms(7) have d: "date_of parse r = Timestamp t" by (simp add: date_of_def)
  from kept_label_iff[OF assms(1,5,6)]
  have k: "i \<in> fst ` set (rows out) \<longleftrightarrow> midnight + time_of_day - timedelta_days 3650 \<le> t"
    unfolding assms(2) d by (simp add: on_or_after_def)
  show ?thesis unfolding k using assms(3,4) by (auto simp: timedelta_days_def)
qed

theorem recency_boundary_witness:
  "last_10_years sample_parse sample_clock boundary_projected
     = (Inr boundary_after_midnight, sample_clock\<lparr>reads := 1\<rparr>)
   \<and> now sample_clock (reads sample_clock) = 1731456000000000000 + 37800000000000
   \<and> 0 \<in> fst ` set (rows boundary_after_midnight)
   \<and> 1 \<notin> fst ` set (rows boundary_after_midnight)
   \<and> 2 \<notin> fst ` set (rows boundary_after_midnight)
   \<and> last_10_years sample_parse midnight_clock boundary_projected
     = (Inr boundary_at_midnight, midnight_clock\<lparr>reads := 1\<rparr>)
   \<and> now midnight_clock (reads midnight_clock) = 1731456000000000000 + 0
   \<and> 1 \<in> fst ` set (rows boundary_at_midnight)"
proof -
  have D: "now sample_clock (reads sample_clock) = 1731456000000000000 + 37800000000000"
    by (simp add: sample_clock_def)
  have M: "now midnight_clock (reads midnight_clock) = 1731456000000000000 + 0"
    by (simp add: midnight_clock_def)
  have t0: "(0::int) \<le> 37800000000000" "(37800000000000::int) < timedelta_days 1"
    "(0::int) \<le> 0" "(0::int) < timedelta_days 1"
    by (simp_all add: timedelta_days_def)
  have dist: "distinct (map fst (rows boundary_projected))" by (simp add: boundary_projected_def)
  have m0: "(0, reindex features_to_analyze (sample_record ''B1'' ''2014-11-17'' (Str ''H302'')))
      \<in> set (rows boundary_projected)" by (simp add: boundary_projected_def)
  have m1: "(1, reindex features_to_analyze (sample_record ''B2'' ''2014-11-16'' (Str ''H302'')))
      \<in> set (rows boundary_projected)" by (simp add: boundary_projected_def)
  have m2: "(2, reindex features_to_analyze (sample_record ''B3'' ''2014-11-15'' (Str ''H302'')))
      \<in> set (rows boundary_projected)" by (simp add: boundary_projected_def)
  from recency_boundary[OF boundary_recency_eval D t0(1,2) dist m0 boundary_dates(1)]
  have 0: "0 \<in> fst ` set (rows boundary_after_midnight)" by blast
  from recency_boundary[OF boundary_recency_eval D t0(1,2) dist m1 boundary_dates(2)]
  have 1: "1 \<notin> fst ` set (rows boundary_after_midnight)" by simp
  from recency_boundary[OF boundary_recency_eval D t0(1,2) dist m2 boundary_dates(3)]
  have 2: "2 \<notin> fst ` set (rows boundary_after_midnight)" by blast
  from recency_boundary[OF boundary_recency_eval_midnight M t0(3,4) dist m1 boundary_dates(2)]
  have 3: "1 \<in> fst ` set (rows boundary_at_midnight)" by simp
  from boundary_recency_eval D 0 1 2 boundary_recency_eval_midnight M 3
  show ?thesis by (intro conjI)
qed

text \<open>
  On 2024-11-13 at 10:30 the record dated 2014-11-16, which is 3650 days before the current
  date, is dropped: of the three boundary records only the one dated 2014-11-17 is left.
\<close>

theorem calendar_day_boundary_counterexample:
  "row_filter sample_lookup sample_parse sample_clock boundary_data
     = (Inr boundary_after_midnight, sample_clock\<lparr>reads := 1\<rparr>)
   \<and> now sample_clock (reads sample_clock) = 1731456000000000000 + 37800000000000
   \<and> 1731456000000000000 mod timedelta_days 1 = 0
   \<and> cell_of (boundary_data ! 1) ''date'' = Str ''2014-11-16''
   \<and> sample_parse ''2014-11-16'' = Parsed (1731456000000000000 - timedelta_days 3650)
   \<and> map fst (rows boundary_after_midnight) = [0]"
  using boundary_filter_eval
  by (simp add: sample_clock_def timedelta_days_def boundary_data_def cell_of_sample_record
        sample_parse_def boundary_after_midnight_def)

text \<open>
  Claim C6. One run of the cell reads the clock exactly once, and there is one cutoff \<open>c\<close>,
  that reading minus 3650 days, such that the result is the frame with its dates parsed,
  restricted to the rows whose parsed date is a timestamp at or after \<open>c\<close>: a row is kept
  if and only if its parsed date is at least \<open>c\<close>, with the same \<open>c\<close> for every row.
\<close>

theorem single_cutoff:
  assumes "last_10_years parse ck df = (Inr out, ck')"
  shows "reads ck' = reads ck + 1
       \<and> (\<exists>c. c = now ck (reads ck) - timedelta_days 3650
              \<and> rows out = filter (\<lambda>(i, r). on_or_after c (cell_of r ''date''))
                             (map (\<lambda>(i, r). (i, with_date parse r)) (rows df))
              \<and> (\<forall>(i, r)\<in>set (rows df).
                    (i, with_date parse r) \<in> set (rows out) \<longleftrightarrow> on_or_after c (date_of parse r)))"
proof -
  note l = last_10_years_Inr[OF assms]
  let ?c = "now ck (reads ck) - timedelta_days 3650"
  have 1: "reads ck' = reads ck + 1" using l(2) by simp
  have 2: "rows out = filter (\<lambda>(i, r). on_or_after ?c (cell_of r ''date''))
                             (map (\<lambda>(i, r). (i, with_date parse r)) (rows df))"
    using l(1) by simp
  have 3: "(i, with_date parse r) \<in> set (rows out) \<longleftrightarrow> on_or_after ?c (date_of parse r)"
    if "(i, r) \<in> set (rows df)" for i r
  proof
    assume "(i, with_date parse r) \<in> set (rows out)"
    then show "on_or_after ?c (date_of parse r)" unfolding 2 by (auto simp: cell_of_with_date)
  next
    assume "on_or_after ?c (date_of parse r)"
    then have "on_or_after ?c (cell_of (with_date parse r) ''date'')"
      by (simp add: cell_of_with_date)
    moreover have "(i, with_date parse r) \<in> set (map (\<lambda>(i, r). (i, with_date parse r)) (rows df))"
      using that by force
    ultimately show "(i, with_date parse r) \<in> set (rows out)" unfolding 2 by simp
  qed
  from 1 2 3 show ?thesis by blast
qed

theorem single_cutoff_witness:
  "last_10_years sample_parse sample_clock sample_projected
     = (Inr sample_filtered, sample_clock\<lparr>reads := 1\<rparr>)
   \<and> reads (sample_clock\<lparr>reads := 1\<rparr>) = reads sample_clock + 1
   \<and> rows sample_filtered
       = filter (\<lambda>(i, r). on_or_after (now sample_clock (reads sample_clock) - timedelta_days 3650)
                            (cell_of r ''date''))
           (map (\<lambda>(i, r). (i, with_date sample_parse r)) (rows sample_projected))"
  using single_cutoff[OF sample_recency_eval] sample_recency_eval by blast

subsection \<open>Exclusion by cause code\<close>

text \<open>
  Claim C5. No row of the filter's result has a cause code that is a key of the lookup table,
  whatever the records and the table; the same holds of the result of the exclusion step
  alone, on any frame. Only the keys of the table matter: two tables with the same keys give
  the same result.
\<close>

theorem excluded_codes_absent:
  assumes "row_filter lookup parse ck recs = (Inr out, ck')"
  shows "(\<forall>(i, r)\<in>set (rows out).
            cell_of r ''primaryaccidentcausecode'' \<notin> Str ` fst ` set lookup)
       \<and> (\<forall>df ex. exclusion lookup df = Inr ex \<longrightarrow>
            (\<forall>(i, r)\<in>set (rows ex).
               cell_of r ''primaryaccidentcausecode'' \<notin> Str ` fst ` set lookup))
       \<and> (\<forall>lookup'. fst ` set lookup' = fst ` set lookup \<longrightarrow>
            row_filter lookup' parse ck recs = row_filter lookup parse ck recs)"
proof (intro conjI)
  note rows = row_filter_Inr(3)[OF assms]
  have c: "cell_of (filtered_row parse r) ''primaryaccidentcausecode''
      = cell_of r ''primaryaccidentcausecode''" for r
    by (simp add: cell_of_filtered_row code_in_features)
  show "\<forall>(i, r)\<in>set (rows out). cell_of r ''primaryaccidentcausecode'' \<notin> Str ` fst ` set lookup"
  proof -
    have "cell_of r' ''primaryaccidentcausecode'' \<notin> Str ` fst ` set lookup"
      if "(i, r') \<in> set (rows out)" for i r'
    proof -
      from that obtain r where "r' = filtered_row parse r"
        "kept (map fst lookup) parse (now ck (reads ck)) r"
        unfolding rows by auto
      then show ?thesis using c[of r] by (simp add: kept_def isin_iff)
    qed
    then show ?thesis by auto
  qed
  show "\<forall>df ex. exclusion lookup df = Inr ex \<longrightarrow>
            (\<forall>(i, r)\<in>set (rows ex).
               cell_of r ''primaryaccidentcausecode'' \<notin> Str ` fst ` set lookup)"
    by (auto simp: exclusion_eq isin_iff split: if_splits)
  show "\<forall>lookup'. fst ` set lookup' = fst ` set lookup \<longrightarrow>
            row_filter lookup' parse ck recs = row_filter lookup parse ck recs"
  proof (intro allI impI)
    fix lookup' :: "(string \<times> string) list"
    assume "fst ` set lookup' = fst ` set lookup"
    then have "exclusion lookup' (DataFrame recs) = exclusion lookup (DataFrame recs)"
      by (intro exclusion_cong) simp
    then show "row_filter lookup' parse ck recs = row_filter lookup parse ck recs"
      by (simp only: row_filter_def non_track_accidents_def)
  qed
qed

theorem excluded_codes_absent_witness:
  "row_filter sample_lookup sample_parse sample_clock sample_data
     = (Inr sample_filtered, sample_clock\<lparr>reads := 1\<rparr>)
   \<and> Str ''T001'' \<in> Str ` fst ` set sample_lookup
   \<and> Str ''T001'' \<notin> (\<lambda>(i, r). cell_of r ''primaryaccidentcausecode'') ` set (rows sample_filtered)"
proof -
  have a: "Str ''T001'' \<in> Str ` fst ` set sample_lookup" by (simp add: sample_lookup_def)
  from excluded_codes_absent[OF sample_filter_eval]
  have b: "\<forall>(i, r)\<in>set (rows sample_filtered).
      cell_of r ''primaryaccidentcausecode'' \<notin> Str ` fst ` set sample_lookup"
    by (rule conjunct1)
  have c: "Str ''T001'' \<notin> (\<lambda>(i, r). cell_of r ''primaryaccidentcausecode'') ` set (rows sample_filtered)"
  proof
    assume "Str ''T001'' \<in> (\<lambda>(i, r). cell_of r ''primaryaccidentcausecode'') ` set (rows sample_filtered)"
    then obtain i r where ir: "(i, r) \<in> set (rows sample_filtered)"
      "cell_of r ''primaryaccidentcausecode'' = Str ''T001''" by force
    from b ir(1) have "cell_of r ''primaryaccidentcausecode'' \<notin> Str ` fst ` set sample_lookup"
      by blast
    with a ir(2) show False by simp
  qed
  from sample_filter_eval a c show ?thesis by (intro conjI)
qed

text \<open>
  Claim C9, as amended. When at least one fetched record carries the cause code field, so
  that the frame has the column, a record whose cause code is missing or null is kept by the
  exclusion step, whatever the lookup table.
\<close>

theorem null_code_retained:
  assumes "\<exists>r\<in>set recs. ''primaryaccidentcausecode'' \<in> fields r"
    and "i < length recs"
    and "''primaryaccidentcausecode'' \<notin> fields (recs ! i)
         \<or> map_of (recs ! i) ''primaryaccidentcausecode'' = Some PyNone"
  shows "\<exists>out. exclusion lookup (DataFrame recs) = Inr out
           \<and> (i, reindex (union_keys recs) (recs ! i)) \<in> set (rows out)"
proof -
  have code: "''primaryaccidentcausecode'' \<in> set (columns (DataFrame recs))"
    using assms(1) by (simp add: DataFrame_def set_union_keys)
  then have code': "''primaryaccidentcausecode'' \<in> set (union_keys recs)"
    by (simp add: DataFrame_def)
  have "cell_of (recs ! i) ''primaryaccidentcausecode'' = NaN
      \<or> cell_of (recs ! i) ''primaryaccidentcausecode'' = PyNone"
    using assms(3) by (auto simp: cell_of_missing) (simp add: cell_of_def)
  then have n: "\<not> isin (map fst lookup) (cell_of (recs ! i) ''primaryaccidentcausecode'')"
    by auto
  have "(i, recs ! i) \<in> set (enumerate 0 recs)" using assms(2) by (simp add: in_set_enumerate_eq)
  then have "(i, recs ! i) \<in> set (filter (\<lambda>(i, r). \<not> isin (map fst lookup)
                  (cell_of r ''primaryaccidentcausecode'')) (enumerate 0 recs))"
    using n by simp
  then have "(i, reindex (union_keys recs) (recs ! i))
      \<in> set (map (\<lambda>(i, r). (i, reindex (union_keys recs) r))
               (filter (\<lambda>(i, r). \<not> isin (map fst lookup)
                  (cell_of r ''primaryaccidentcausecode'')) (enumerate 0 recs)))"
    by force
  then show ?thesis
    unfolding exclusion_eq rows_DataFrame
      filter_reindex[OF code', of "\<lambda>v. \<not> isin (map fst lookup) v"]
    using code by simp
qed

theorem null_code_retained_witness:
  "(\<exists>r\<in>set sample_data. ''primaryaccidentcausecode'' \<in> fields r)
   \<and> 1 < length sample_data
   \<and> map_of (sample_data ! 1) ''primaryaccidentcausecode'' = Some PyNone
   \<and> (\<exists>out. exclusion sample_lookup (DataFrame sample_data) = Inr out
          \<and> (1, reindex (union_keys sample_data) (sample_data ! 1)) \<in> set (rows out))"
proof -
  have 1: "\<exists>r\<in>set sample_data. ''primaryaccidentcausecode'' \<in> fields r"
    by (simp add: sample_data_def sparse_record_def fields_def)
  have 2: "1 < length sample_data" by (simp add: sample_data_def)
  have 3: "map_of (sample_data ! 1) ''primaryaccidentcausecode'' = Some PyNone"
    by (simp add: sample_data_def sparse_record_def)
  from null_code_retained[OF 1 2 disjI2[OF 3], of sample_lookup] 1 2 3 show ?thesis by blast
qed

text \<open>
  When no fetched record carries the field the frame has no such column, and the step raises
  \<^verbatim>\<open>KeyError\<close> instead of keeping the record.
\<close>

theorem exclusion_without_code_column_counterexample:
  "exclusion sample_lookup (DataFrame [[(''accidentnumber'', Str ''E1'')]])
     = Inl (KeyError [''primaryaccidentcausecode''])"
  by (simp add: exclusion_def DataFrame_def union_keys_def add_key_def getitem_col_def)

text \<open>In particular a fetch that returned no record at all stops the filter here.\<close>

lemma empty_fetch_raises:
  "row_filter lookup parse ck [] = (Inl (KeyError [''primaryaccidentcausecode'']), ck)"
  by (simp add: row_filter_def non_track_accidents_def exclusion_def getitem_col_def
        DataFrame_def union_keys_def)

subsection \<open>Projection\<close>

text \<open>
  Claim C7, as amended. Exclusion and projection fail, with \<^verbatim>\<open>KeyError\<close> and no other
  error, exactly when some projected column is carried by no fetched record at all, excluded or
  not. Otherwise they succeed: the result holds every record that survives the exclusion, in
  order, and a record that lacks a projected column has \<open>NaN\<close> there.
\<close>

theorem projection_null_fills:
  "((\<exists>ms. non_track_accidents lookup (DataFrame recs) = Inl (KeyError ms))
      \<longleftrightarrow> (\<exists>c\<in>set features_to_analyze. \<forall>r\<in>set recs. c \<notin> fields r))
   \<and> (\<forall>e. non_track_accidents lookup (DataFrame recs) = Inl e \<longrightarrow> (\<exists>ms. e = KeyError ms))
   \<and> (\<forall>out. non_track_accidents lookup (DataFrame recs) = Inr out \<longrightarrow>
         rows out = map (\<lambda>(i, r). (i, reindex features_to_analyze r))
                      (filter (\<lambda>(i, r). \<not> isin (map fst lookup)
                                          (cell_of r ''primaryaccidentcausecode''))
                         (enumerate 0 recs))
         \<and> (\<forall>i<length recs. \<forall>c\<in>set features_to_analyze.
               c \<notin> fields (recs ! i) \<longrightarrow> cell_of (reindex features_to_analyze (recs ! i)) c = NaN))"
proof (cases "set features_to_analyze \<subseteq> (\<Union>r\<in>set recs. fields r)")
  case True
  note ok = non_track_accidents_DataFrame[OF True, of lookup]
  have "\<not> (\<exists>c\<in>set features_to_analyze. \<forall>r\<in>set recs. c \<notin> fields r)" using True by auto
  moreover have "\<forall>i<length recs. \<forall>c\<in>set features_to_analyze.
               c \<notin> fields (recs ! i) \<longrightarrow> cell_of (reindex features_to_analyze (recs ! i)) c = NaN"
    by (simp add: cell_of_reindex cell_of_missing)
  ultimately show ?thesis unfolding ok by simp
next
  case False
  from non_track_accidents_DataFrame_Inl[OF False, of lookup] obtain ms where
    ms: "non_track_accidents lookup (DataFrame recs) = Inl (KeyError ms)" by blast
  have "\<exists>c\<in>set features_to_analyze. \<forall>r\<in>set recs. c \<notin> fields r" using False by auto
  then show ?thesis unfolding ms by simp
qed

theorem projection_null_fills_witness:
  "non_track_accidents sample_lookup (DataFrame sample_data) = Inr sample_projected
   \<and> 1 < length sample_data
   \<and> ''longitude'' \<in> set features_to_analyze
   \<and> ''longitude'' \<notin> fields (sample_data ! 1)
   \<and> cell_of (reindex features_to_analyze (sample_data ! 1)) ''longitude'' = NaN"
proof -
  have 1: "1 < length sample_data" by (simp add: sample_data_def)
  have 2: "''longitude'' \<in> set features_to_analyze" by (simp add: features_to_analyze_def)
  have 3: "''longitude'' \<notin> fields (sample_data ! 1)"
    by (simp add: sample_data_def sparse_record_def fields_def)
  from projection_null_fills[of sample_lookup sample_data] sample_projection_eval 1 2 3
  show ?thesis by blast
qed

text \<open>
  The second sample record survives the exclusion and has no longitude, and the projection
  does not fail: the record is row 1 of the result, with \<open>NaN\<close> for its longitude.
\<close>

theorem projection_null_fills_counterexample:
  "non_track_accidents sample_lookup (DataFrame sample_data) = Inr sample_projected
   \<and> map fst (rows sample_projected) = [0, 1, 3]
   \<and> ''longitude'' \<in> set features_to_analyze
   \<and> ''longitude'' \<notin> fields (sample_data ! 1)
   \<and> cell_of (snd (rows sample_projected ! 1)) ''longitude'' = NaN"
  using sample_projection_eval
  by (simp add: features_to_analyze_def fields_def sparse_record_def cell_of_def reindex_def
        sample_data_def sample_projected_def)

subsection \<open>Order\<close>

text \<open>
  Claim C10. The rows of the filter's result are the rows of a subsequence of the fetched
  records, in their original order: the index labels of the result are a subsequence of
  \<open>0, 1, ..., n - 1\<close>, strictly increasing, and each row is the filtered row of the record at
  its label. Nothing is reordered, duplicated or interleaved.
\<close>

theorem filter_preserves_order:
  assumes "row_filter lookup parse ck recs = (Inr out, ck')"
  shows "subseq (map fst (rows out)) [0..<length recs]
       \<and> sorted_wrt (<) (map fst (rows out))
       \<and> (\<exists>sel. subseq sel recs \<and> map snd (rows out) = map (filtered_row parse) sel)
       \<and> (\<forall>(i, r)\<in>set (rows out). i < length recs \<and> r = filtered_row parse (recs ! i))"
proof -
  let ?P = "\<lambda>(i, r). kept (map fst lookup) parse (now ck (reads ck)) r"
  note rows = row_filter_Inr(3)[OF assms]
  have l: "map fst (rows out) = map fst (filter ?P (enumerate 0 recs))"
    unfolding rows by (rule rows_out_labels)
  have 1: "subseq (map fst (rows out)) [0..<length recs]" unfolding l by (rule labels_subseq)
  have 2: "sorted_wrt (<) (map fst (rows out))" unfolding l by (rule labels_sorted)
  have "subseq (map snd (filter ?P (enumerate 0 recs))) (map snd (enumerate 0 recs))"
    by (rule subseq_map) simp
  then have s: "subseq (map snd (filter ?P (enumerate 0 recs))) recs" by simp
  have "map snd (rows out) = map (filtered_row parse) (map snd (filter ?P (enumerate 0 recs)))"
    unfolding rows by (simp add: case_prod_beta comp_def)
  with s have 3: "\<exists>sel. subseq sel recs \<and> map snd (rows out) = map (filtered_row parse) sel"
    by blast
  have 4: "\<forall>(i, r)\<in>set (rows out). i < length recs \<and> r = filtered_row parse (recs ! i)"
    unfolding rows by (auto simp: in_set_enumerate_eq)
  show ?thesis using 1 2 3 4 by simp
qed

theorem filter_preserves_order_witness:
  "row_filter sample_lookup sample_parse sample_clock sample_data
     = (Inr sample_filtered, sample_clock\<lparr>reads := 1\<rparr>)
   \<and> subseq (map fst (rows sample_filtered)) [0..<length sample_data]
   \<and> sorted_wrt (<) (map fst (rows sample_filtered))"
  using filter_preserves_order[OF sample_filter_eval] sample_filter_eval by blast

subsection \<open>The exported file\<close>

text \<open>
  Claim C8. For every result of the filter, the file written has as its header row the 21
  projected column names in their fixed order, then one row for each row of the result, in
  order; every row has 21 fields, those of the projected columns, so there is no column for
  the index.
\<close>

theorem export_header_and_rows:
  assumes "row_filter lookup parse ck recs = (Inr out, ck')"
  shows "\<exists>body. export strftime fs out ''non_track_accidents_last_10_years.csv''
                   = Some (features_to_analyze # body)
           \<and> length features_to_analyze = 21
           \<and> length body = length (rows out)
           \<and> (\<forall>line\<in>set body. length line = 21)
           \<and> body = map (\<lambda>(i, r). map (\<lambda>c. render strftime (cell_of r c)) features_to_analyze)
                       (rows out)"
proof -
  note cols = row_filter_Inr(2)[OF assms]
  have n: "length features_to_analyze = 21" by (simp add: features_to_analyze_def)
  let ?body = "map (\<lambda>(i, r). map (\<lambda>c. render strftime (cell_of r c)) features_to_analyze)
                       (rows out)"
  have "export strftime fs out ''non_track_accidents_last_10_years.csv''
          = Some (features_to_analyze # ?body)"
    by (simp add: export_def to_csv_def cols)
  moreover have "\<forall>line\<in>set ?body. length line = 21" using n by auto
  ultimately show ?thesis using n by simp
qed

theorem export_header_and_rows_witness:
  "row_filter sample_lookup sample_parse sample_clock sample_data
     = (Inr sample_filtered, sample_clock\<lparr>reads := 1\<rparr>)
   \<and> (\<exists>body. export (\<lambda>t. ''2024-08-31'') Map.empty sample_filtered
                 ''non_track_accidents_last_10_years.csv'' = Some (features_to_analyze # body)
          \<and> length body = length (rows sample_filtered))"
  using export_header_and_rows[OF sample_filter_eval, of "\<lambda>t. ''2024-08-31''" Map.empty]
    sample_filter_eval by blast

end
